theory Spec2Isabelle
  imports Main "HOL-Library.Word" "HOL-Library.Monad_Syntax" "HOL-Library.List_Lexorder"
begin

unbundle bit_operations_syntax

chapter \<open>PAK and UTOC container readers\<close>

text \<open>
  A shallow embedding of the two readers of the repository: \<^verbatim>\<open>utoc_reader.cpp\<close> (the IoStore
  table of contents) and \<^verbatim>\<open>pak_reader.cpp\<close> (the legacy archive).  The target is a 64-bit
  little-endian machine: \<^verbatim>\<open>size_t\<close> is 64 bits wide and \<^verbatim>\<open>memcpy\<close> into an integer reads it
  least significant byte first.

  A \<^verbatim>\<open>std::string\<close> is a sequence of bytes and is modelled as a list of bytes; its comparison
  (\<^verbatim>\<open>std::char_traits<char>::compare\<close>) is the lexicographic order on unsigned bytes, which is
  the order of \<open>HOL-Library.List_Lexorder\<close> on \<^typ>\<open>8 word list\<close>.
\<close>

section \<open>Bytes\<close>

type_synonym byte = "8 word"
type_synonym std_string = "byte list"

text \<open>The value of a little-endian byte sequence.\<close>

fun le_nat :: "byte list \<Rightarrow> nat" where
  "le_nat [] = 0"
| "le_nat (b # bs) = unat b + 256 * le_nat bs"

text \<open>\<^verbatim>\<open>std::vector::resize\<close>: keeps the leading elements, fills with value-initialised ones.\<close>

definition resize :: "nat \<Rightarrow> 'a \<Rightarrow> 'a list \<Rightarrow> 'a list" where
  "resize n d xs = take n xs @ replicate (n - length xs) d"

section \<open>The UTOC reader\<close>

text \<open>
  The UTOC reader works on the whole file in memory and checks no bound: a \<^verbatim>\<open>memcpy\<close> whose
  source range leaves the buffer is undefined behaviour in C++.  The model makes that outcome
  explicit: every read returns an option, and \<open>None\<close> is "the source has no defined result
  here".  A statement about what the reader returns is about the \<open>Some\<close> results.
\<close>

definition read_bytes :: "byte list \<Rightarrow> nat \<Rightarrow> nat \<Rightarrow> byte list option" where
  "read_bytes data offset n =
     (if offset + n \<le> length data then Some (take n (drop offset data)) else None)"

text \<open>\<^verbatim>\<open>ReadValue<T>\<close>: copy \<^verbatim>\<open>sizeof(T)\<close> bytes at the offset and advance the offset.\<close>

definition ReadValue :: "byte list \<Rightarrow> nat \<Rightarrow> ('a::len word \<times> nat) option" where
  "ReadValue data offset =
     (let n = LENGTH('a) div 8 in
      if offset + n \<le> length data
      then Some (of_nat (le_nat (take n (drop offset data))), offset + n)
      else None)"

abbreviation ReadValue_uint8 :: "byte list \<Rightarrow> nat \<Rightarrow> (8 word \<times> nat) option" where
  "ReadValue_uint8 \<equiv> ReadValue"

abbreviation ReadValue_char16 :: "byte list \<Rightarrow> nat \<Rightarrow> (16 word \<times> nat) option" where
  "ReadValue_char16 \<equiv> ReadValue"

abbreviation ReadValue_uint32 :: "byte list \<Rightarrow> nat \<Rightarrow> (32 word \<times> nat) option" where
  "ReadValue_uint32 \<equiv> ReadValue"

text \<open>\<^verbatim>\<open>ReadOptional\<close>: the sentinel \<^verbatim>\<open>UINT32_MAX\<close> is "absent".\<close>

definition ReadOptional :: "byte list \<Rightarrow> nat \<Rightarrow> (32 word option \<times> nat) option" where
  "ReadOptional data offset =
     (case ReadValue_uint32 data offset of
        None \<Rightarrow> None
      | Some (v, offset') \<Rightarrow> Some (if v = 0xFFFFFFFF then None else Some v, offset'))"

subsection \<open>Strings\<close>

text \<open>
  The loop of the UTF-16 branch of \<^verbatim>\<open>ReadString\<close>: read up to \<open>n\<close> code units, stop after
  reading a zero one.  The zero code unit has been consumed when the loop stops.
\<close>

fun read_utf16 :: "byte list \<Rightarrow> nat \<Rightarrow> nat \<Rightarrow> (16 word list \<times> nat) option" where
  "read_utf16 data offset 0 = Some ([], offset)"
| "read_utf16 data offset (Suc n) =
     (case ReadValue_char16 data offset of
        None \<Rightarrow> None
      | Some (c, offset') \<Rightarrow>
          if c = 0 then Some ([], offset')
          else (case read_utf16 data offset' n of
                  None \<Rightarrow> None
                | Some (cs, offset'') \<Rightarrow> Some (c # cs, offset'')))"

text \<open>The transcoding of one code unit (one, two or three bytes; no surrogate pairs).\<close>

definition utf8_of :: "16 word \<Rightarrow> std_string" where
  "utf8_of c =
     (if c < 0x80 then [ucast c]
      else if c < 0x800 then [ucast (0xC0 OR drop_bit 6 c), ucast (0x80 OR (c AND 0x3F))]
      else [ucast (0xE0 OR drop_bit 12 c), ucast (0x80 OR (drop_bit 6 c AND 0x3F)),
            ucast (0x80 OR (c AND 0x3F))])"

text \<open>
  \<^verbatim>\<open>UtocReader::ReadString\<close>.  The length is a signed 32-bit integer; negating the least one
  overflows, which is undefined.  After the loop the source adds
  \<^verbatim>\<open>(length - utf16.size()) * sizeof(char16_t)\<close> to the offset when fewer than \<^verbatim>\<open>length\<close> code
  units were kept.
\<close>

definition ReadString :: "byte list \<Rightarrow> nat \<Rightarrow> (std_string \<times> nat) option" where
  "ReadString data offset =
     (case ReadValue_uint32 data offset of
        None \<Rightarrow> None
      | Some (l, offset1) \<Rightarrow>
          let len = sint l in
          if len = 0 then Some ([], offset1)
          else if len < 0 then
            (if len = - 2147483648 then None
             else
               (case read_utf16 data offset1 (nat (- len)) of
                  None \<Rightarrow> None
                | Some (utf16, offset2) \<Rightarrow>
                    let offset3 =
                      (if length utf16 < nat (- len)
                       then offset2 + (nat (- len) - length utf16) * 2
                       else offset2)
                    in Some (concat (map utf8_of utf16), offset3)))
          else
            (case read_bytes data offset1 (nat len) of
               None \<Rightarrow> None
             | Some bs \<Rightarrow> Some (takeWhile (\<lambda>b. b \<noteq> 0) bs, offset1 + nat len)))"

subsection \<open>Header\<close>

text \<open>
  \<^verbatim>\<open>EIoStoreTocVersion\<close> and \<^verbatim>\<open>EIoContainerFlags\<close> are enumerations over \<^verbatim>\<open>uint8_t\<close>.  The
  header is copied from the file as it is, so the fields hold any byte; the enumerators are
  named constants of that type.
\<close>

definition Invalid :: byte where "Invalid = 0"
definition Initial :: byte where "Initial = 1"
definition DirectoryIndex :: byte where "DirectoryIndex = 2"
definition PartitionSize :: byte where "PartitionSize = 3"
definition PerfectHash :: byte where "PerfectHash = 4"
definition PerfectHashWithOverflow :: byte where "PerfectHashWithOverflow = 5"
definition OnDemandMetaData :: byte where "OnDemandMetaData = 6"
definition RemovedOnDemandMetaData :: byte where "RemovedOnDemandMetaData = 7"
definition ReplaceIoChunkHashWithIoHash :: byte where "ReplaceIoChunkHashWithIoHash = 8"

definition Compressed :: byte where "Compressed = 1"
definition Encrypted :: byte where "Encrypted = 2"
definition Signed :: byte where "Signed = 4"
definition Indexed :: byte where "Indexed = 8"

definition MAGIC :: "byte list" where
  "MAGIC = [0x2D, 0x3D, 0x3D, 0x2D, 0x2D, 0x3D, 0x3D, 0x2D,
            0x2D, 0x3D, 0x3D, 0x2D, 0x2D, 0x3D, 0x3D, 0x2D]"

record FIoStoreTocHeader =
  toc_magic :: "byte list"
  version :: byte
  reserved0 :: byte
  reserved1 :: "16 word"
  toc_header_size :: "32 word"
  toc_entry_count :: "32 word"
  toc_compressed_block_entry_count :: "32 word"
  toc_compressed_block_entry_size :: "32 word"
  compression_method_name_count :: "32 word"
  compression_method_name_length :: "32 word"
  compression_block_size :: "32 word"
  directory_index_size :: "32 word"
  partition_count :: "32 word"
  container_id :: "64 word"
  encryption_key_guid :: "byte list"
  container_flags :: byte
  reserved3 :: byte
  reserved4 :: "16 word"
  toc_chunk_perfect_hash_seeds_count :: "32 word"
  partition_size :: "64 word"
  toc_chunks_without_perfect_hash_count :: "32 word"
  reserved7 :: "32 word"
  reserved8 :: "byte list"

definition field :: "byte list \<Rightarrow> nat \<Rightarrow> nat \<Rightarrow> 'a::len word" where
  "field bs offset n = of_nat (le_nat (take n (drop offset bs)))"

text \<open>
  \<^verbatim>\<open>std::memcpy(&header_, fileData.data(), sizeof(FIoStoreTocHeader))\<close>: the struct has no
  padding, its 144 bytes are the fields in declaration order.
\<close>

definition parse_header :: "byte list \<Rightarrow> FIoStoreTocHeader" where
  "parse_header bs =
     \<lparr> toc_magic = take 16 bs,
       version = field bs 16 1,
       reserved0 = field bs 17 1,
       reserved1 = field bs 18 2,
       toc_header_size = field bs 20 4,
       toc_entry_count = field bs 24 4,
       toc_compressed_block_entry_count = field bs 28 4,
       toc_compressed_block_entry_size = field bs 32 4,
       compression_method_name_count = field bs 36 4,
       compression_method_name_length = field bs 40 4,
       compression_block_size = field bs 44 4,
       directory_index_size = field bs 48 4,
       partition_count = field bs 52 4,
       container_id = field bs 56 8,
       encryption_key_guid = take 16 (drop 64 bs),
       container_flags = field bs 80 1,
       reserved3 = field bs 81 1,
       reserved4 = field bs 82 2,
       toc_chunk_perfect_hash_seeds_count = field bs 84 4,
       partition_size = field bs 88 8,
       toc_chunks_without_perfect_hash_count = field bs 96 4,
       reserved7 = field bs 100 4,
       reserved8 = take 40 (drop 104 bs) \<rparr>"

definition IsValid :: "FIoStoreTocHeader \<Rightarrow> bool" where
  "IsValid h \<longleftrightarrow> toc_magic h = MAGIC"

definition IsEncrypted :: "FIoStoreTocHeader \<Rightarrow> bool" where
  "IsEncrypted h \<longleftrightarrow> container_flags h AND Encrypted \<noteq> 0"

definition IsSigned :: "FIoStoreTocHeader \<Rightarrow> bool" where
  "IsSigned h \<longleftrightarrow> container_flags h AND Signed \<noteq> 0"

definition IsIndexed :: "FIoStoreTocHeader \<Rightarrow> bool" where
  "IsIndexed h \<longleftrightarrow> container_flags h AND Indexed \<noteq> 0"

subsection \<open>Chunk metadata\<close>

record FIoStoreTocEntryMeta =
  chunk_hash :: "byte list"
  flags :: byte

definition empty_meta :: FIoStoreTocEntryMeta where
  "empty_meta = \<lparr> chunk_hash = replicate 32 0, FIoStoreTocEntryMeta.flags = 0 \<rparr>"

text \<open>
  One pass of the body of the chunk-metadata loop of \<^verbatim>\<open>Open\<close>, for the record \<open>m\<close> that
  \<^verbatim>\<open>chunk_metas_[i]\<close> holds.  In the newer shape only the first 20 bytes of the 32-byte hash are
  written.  \<^verbatim>\<open>ReadValue<uint8_t>\<close> advances the offset by one, and the source then adds 4
  (respectively 1) on top of it.
\<close>

definition read_chunk_meta ::
  "byte \<Rightarrow> byte list \<Rightarrow> FIoStoreTocEntryMeta \<Rightarrow> nat \<Rightarrow> (FIoStoreTocEntryMeta \<times> nat) option" where
  "read_chunk_meta ver data m offset =
     (if ver \<ge> ReplaceIoChunkHashWithIoHash then
        (case read_bytes data offset 20 of
           None \<Rightarrow> None
         | Some h \<Rightarrow>
            (case ReadValue_uint8 data (offset + 20) of
               None \<Rightarrow> None
             | Some (f, offset') \<Rightarrow>
                 Some (\<lparr> chunk_hash = h @ drop 20 (chunk_hash m),
                         FIoStoreTocEntryMeta.flags = f \<rparr>, offset' + 4)))
      else
        (case read_bytes data offset 32 of
           None \<Rightarrow> None
         | Some h \<Rightarrow>
            (case ReadValue_uint8 data (offset + 32) of
               None \<Rightarrow> None
             | Some (f, offset') \<Rightarrow>
                 Some (\<lparr> chunk_hash = h, FIoStoreTocEntryMeta.flags = f \<rparr>, offset' + 1))))"

text \<open>The loop over the \<^verbatim>\<open>toc_entry_count\<close> records, after the \<^verbatim>\<open>resize\<close>.\<close>

fun read_chunk_metas ::
  "byte \<Rightarrow> byte list \<Rightarrow> FIoStoreTocEntryMeta list \<Rightarrow> nat \<Rightarrow>
     (FIoStoreTocEntryMeta list \<times> nat) option" where
  "read_chunk_metas ver data [] offset = Some ([], offset)"
| "read_chunk_metas ver data (m # ms) offset =
     (case read_chunk_meta ver data m offset of
        None \<Rightarrow> None
      | Some (m', offset') \<Rightarrow>
         (case read_chunk_metas ver data ms offset' of
            None \<Rightarrow> None
          | Some (ms', offset'') \<Rightarrow> Some (m' # ms', offset'')))"

subsection \<open>Directory index\<close>

record FIoDirectoryIndexEntry =
  name :: "32 word option"
  first_child_entry :: "32 word option"
  next_sibling_entry :: "32 word option"
  first_file_entry :: "32 word option"

record FIoFileIndexEntry =
  name :: "32 word"
  next_file_entry :: "32 word option"
  user_data :: "32 word"

record FIoDirectoryIndexResource =
  mount_point :: std_string
  directory_entries :: "FIoDirectoryIndexEntry list"
  file_entries :: "FIoFileIndexEntry list"
  string_table :: "std_string list"

text \<open>
  The three loops of \<^verbatim>\<open>ParseDirectoryIndex\<close>.  Each vector is resized to the count read from
  the buffer and every element is then assigned, so the vector after the loop is the list of
  the records read.
\<close>

fun read_directory_entries ::
  "byte list \<Rightarrow> nat \<Rightarrow> nat \<Rightarrow> (FIoDirectoryIndexEntry list \<times> nat) option" where
  "read_directory_entries data offset 0 = Some ([], offset)"
| "read_directory_entries data offset (Suc n) =
     do {
       (nm, offset1) \<leftarrow> ReadOptional data offset;
       (fc, offset2) \<leftarrow> ReadOptional data offset1;
       (ns, offset3) \<leftarrow> ReadOptional data offset2;
       (ff, offset4) \<leftarrow> ReadOptional data offset3;
       (es, offset5) \<leftarrow> read_directory_entries data offset4 n;
       Some (\<lparr> FIoDirectoryIndexEntry.name = nm, first_child_entry = fc,
               next_sibling_entry = ns, first_file_entry = ff \<rparr> # es, offset5)
     }"

text \<open>The file-entry loop also stores an empty path under each \<^verbatim>\<open>user_data\<close> in \<^verbatim>\<open>file_map_\<close>.\<close>

fun read_file_entries ::
  "byte list \<Rightarrow> nat \<Rightarrow> nat \<Rightarrow> (32 word \<rightharpoonup> std_string) \<Rightarrow>
     (FIoFileIndexEntry list \<times> (32 word \<rightharpoonup> std_string) \<times> nat) option" where
  "read_file_entries data offset 0 fm = Some ([], fm, offset)"
| "read_file_entries data offset (Suc n) fm =
     do {
       (nm, offset1) \<leftarrow> ReadValue_uint32 data offset;
       (nf, offset2) \<leftarrow> ReadOptional data offset1;
       (ud, offset3) \<leftarrow> ReadValue_uint32 data offset2;
       (es, fm', offset4) \<leftarrow> read_file_entries data offset3 n (fm(ud \<mapsto> []));
       Some (\<lparr> FIoFileIndexEntry.name = nm, next_file_entry = nf, user_data = ud \<rparr> # es,
             fm', offset4)
     }"

fun read_string_table :: "byte list \<Rightarrow> nat \<Rightarrow> nat \<Rightarrow> (std_string list \<times> nat) option" where
  "read_string_table data offset 0 = Some ([], offset)"
| "read_string_table data offset (Suc n) =
     do {
       (s, offset1) \<leftarrow> ReadString data offset;
       (ss, offset2) \<leftarrow> read_string_table data offset1 n;
       Some (s # ss, offset2)
     }"

subsection \<open>The reader\<close>

text \<open>
  The members of \<^verbatim>\<open>UtocReader\<close> (the source's names end in an underscore).  The records of
  the chunk-id, offset-and-length and compressed-block vectors are kept raw, as the source
  keeps them.
\<close>

record UtocReader =
  header :: FIoStoreTocHeader
  chunk_ids :: "byte list list"
  chunk_offset_lengths :: "byte list list"
  chunk_perfect_hash_seeds :: "32 word list"
  chunk_indices_without_perfect_hash :: "32 word list"
  compression_blocks :: "byte list list"
  compression_methods :: "std_string list"
  chunk_metas :: "FIoStoreTocEntryMeta list"
  directory_index :: FIoDirectoryIndexResource
  file_map :: "32 word \<rightharpoonup> std_string"

text \<open>
  \<^verbatim>\<open>ParseDirectoryIndex\<close> validates nothing: whenever its reads stay inside the buffer it
  stores what it has read and returns \<^verbatim>\<open>true\<close>.
\<close>

definition ParseDirectoryIndex :: "byte list \<Rightarrow> UtocReader \<Rightarrow> (bool \<times> UtocReader) option" where
  "ParseDirectoryIndex data r =
     do {
       (mp, offset1) \<leftarrow> ReadString data 0;
       (directoryEntryCount, offset2) \<leftarrow> ReadValue_uint32 data offset1;
       (des, offset3) \<leftarrow> read_directory_entries data offset2 (unat directoryEntryCount);
       (fileEntryCount, offset4) \<leftarrow> ReadValue_uint32 data offset3;
       (fes, fm, offset5) \<leftarrow> read_file_entries data offset4 (unat fileEntryCount) (file_map r);
       (stringCount, offset6) \<leftarrow> ReadValue_uint32 data offset5;
       (st, offset7) \<leftarrow> read_string_table data offset6 (unat stringCount);
       Some (True,
             r\<lparr> directory_index :=
                   \<lparr> mount_point = mp, directory_entries = des, file_entries = fes,
                     string_table = st \<rparr>,
                 file_map := fm \<rparr>)
     }"

text \<open>\<^verbatim>\<open>memcpy\<close> of \<open>n\<close> records of \<open>sz\<close> bytes each into a vector of \<open>n\<close> structs.\<close>

definition read_records :: "byte list \<Rightarrow> nat \<Rightarrow> nat \<Rightarrow> nat \<Rightarrow> byte list list option" where
  "read_records data offset n sz =
     (case read_bytes data offset (n * sz) of
        None \<Rightarrow> None
      | Some bs \<Rightarrow> Some (map (\<lambda>i. take sz (drop (i * sz) bs)) [0..<n]))"

definition read_int32s :: "byte list \<Rightarrow> nat \<Rightarrow> nat \<Rightarrow> 32 word list option" where
  "read_int32s data offset n =
     (case read_records data offset n 4 of
        None \<Rightarrow> None
      | Some rs \<Rightarrow> Some (map (\<lambda>bs. of_nat (le_nat bs)) rs))"

text \<open>
  The compression-method loop: \<^verbatim>\<open>compression_method_name_length\<close> bytes are copied into a
  zeroed array of 32 and the array is read as a C string.  A longer name overruns the array,
  and a name of 32 bytes without a zero byte is read past its end; both are undefined.
\<close>

fun read_method_names ::
  "byte list \<Rightarrow> nat \<Rightarrow> nat \<Rightarrow> nat \<Rightarrow> (std_string list \<times> nat) option" where
  "read_method_names data offset len 0 = Some ([], offset)"
| "read_method_names data offset len (Suc n) =
     (if len > 32 then None
      else
        do {
          bs \<leftarrow> read_bytes data offset len;
          let methodName = bs @ replicate (32 - len) 0;
          if 0 \<notin> set methodName then None
          else
            do {
              (ns, offset') \<leftarrow> read_method_names data (offset + len) len n;
              Some (takeWhile (\<lambda>b. b \<noteq> 0) methodName # ns, offset')
            }
        })"

text \<open>
  The blocks of \<^verbatim>\<open>UtocReader::Open\<close> that depend on the version or on the container flags,
  each under the comment that heads it in the source.  The two skips of the signature
  section are computed in 32-bit unsigned arithmetic, as in the source.
\<close>

text \<open>\<^verbatim>\<open>// Read hash map\<close>\<close>

definition read_hash_map ::
  "FIoStoreTocHeader \<Rightarrow> byte list \<Rightarrow> UtocReader \<Rightarrow> nat \<Rightarrow> (UtocReader \<times> nat) option" where
  "read_hash_map h fileData r offset =
     (if FIoStoreTocHeader.version h \<ge> PerfectHashWithOverflow then
        do {
          seeds \<leftarrow> read_int32s fileData offset (unat (toc_chunk_perfect_hash_seeds_count h));
          let offset = offset + unat (toc_chunk_perfect_hash_seeds_count h) * 4;
          ovf \<leftarrow> read_int32s fileData offset (unat (toc_chunks_without_perfect_hash_count h));
          let offset = offset + unat (toc_chunks_without_perfect_hash_count h) * 4;
          Some (r\<lparr> chunk_perfect_hash_seeds := seeds,
                   chunk_indices_without_perfect_hash := ovf \<rparr>, offset)
        }
      else if FIoStoreTocHeader.version h \<ge> PerfectHash then
        do {
          seeds \<leftarrow> read_int32s fileData offset (unat (toc_chunk_perfect_hash_seeds_count h));
          let offset = offset + unat (toc_chunk_perfect_hash_seeds_count h) * 4;
          Some (r\<lparr> chunk_perfect_hash_seeds := seeds \<rparr>, offset)
        }
      else Some (r, offset))"

text \<open>\<^verbatim>\<open>if (header_.IsSigned()) { ... }\<close>\<close>

definition skip_signatures :: "FIoStoreTocHeader \<Rightarrow> byte list \<Rightarrow> nat \<Rightarrow> nat option" where
  "skip_signatures h fileData offset =
     (if IsSigned h then
        do {
          (signatureSize, offset) \<leftarrow> ReadValue_uint32 fileData offset;
          let offset = offset + unat (signatureSize * 2 + 4);
          let offset = offset + unat (toc_compressed_block_entry_count h * 20);
          Some offset
        }
      else Some offset)"

text \<open>\<^verbatim>\<open>// Read directory index\<close>; the result says whether \<^verbatim>\<open>Open\<close> goes on.\<close>

definition read_directory_index ::
  "FIoStoreTocHeader \<Rightarrow> byte list \<Rightarrow> UtocReader \<Rightarrow> nat \<Rightarrow> (bool \<times> UtocReader \<times> nat) option" where
  "read_directory_index h fileData r offset =
     (if IsIndexed h \<and> directory_index_size h > 0 then
        do {
          directoryData \<leftarrow> read_bytes fileData offset (unat (directory_index_size h));
          (ok, r) \<leftarrow> ParseDirectoryIndex directoryData r;
          Some (ok, r, offset + unat (directory_index_size h))
        }
      else Some (True, r, offset))"

text \<open>
  \<^verbatim>\<open>UtocReader::Open\<close>.  The argument is the content of the file, \<open>None\<close> when the file cannot
  be opened.  The members are assigned as the source assigns them, so the reader returned with
  \<^verbatim>\<open>false\<close> holds everything stored before the failing check.
\<close>

definition Open :: "byte list option \<Rightarrow> UtocReader \<Rightarrow> (bool \<times> UtocReader) option" where
  "Open file r =
     (case file of
        None \<Rightarrow> Some (False, r)
      | Some fileData \<Rightarrow>
        do {
          hb \<leftarrow> read_bytes fileData 0 144;
          let r = r\<lparr> header := parse_header hb \<rparr>;
          let h = header r;
          let offset = 144;
          if \<not> IsValid h then Some (False, r)
          else
            do {
              ids \<leftarrow> read_records fileData offset (unat (toc_entry_count h)) 12;
              let r = r\<lparr> chunk_ids := ids \<rparr>;
              let offset = offset + unat (toc_entry_count h) * 12;
              ols \<leftarrow> read_records fileData offset (unat (toc_entry_count h)) 10;
              let r = r\<lparr> chunk_offset_lengths := ols \<rparr>;
              let offset = offset + unat (toc_entry_count h) * 10;
              (r, offset) \<leftarrow> read_hash_map h fileData r offset;
              blocks \<leftarrow> read_records fileData offset
                          (unat (toc_compressed_block_entry_count h)) 12;
              let r = r\<lparr> compression_blocks := blocks \<rparr>;
              let offset = offset + unat (toc_compressed_block_entry_count h) * 12;
              (methods, offset) \<leftarrow>
                read_method_names fileData offset (unat (compression_method_name_length h))
                  (unat (compression_method_name_count h));
              let r = r\<lparr> compression_methods := methods \<rparr>;
              if IsEncrypted h then Some (False, r)
              else
                do {
                  offset \<leftarrow> skip_signatures h fileData offset;
                  (ok, r, offset) \<leftarrow> read_directory_index h fileData r offset;
                  if \<not> ok then Some (False, r)
                  else
                    do {
                      (metas, offset) \<leftarrow>
                        read_chunk_metas (FIoStoreTocHeader.version h) fileData
                          (resize (unat (toc_entry_count h)) empty_meta (chunk_metas r)) offset;
                      Some (True, r\<lparr> chunk_metas := metas \<rparr>)
                    }
                }
            }
        })"

text \<open>
  Where the sections after the chunk offsets start, as \<^verbatim>\<open>Open\<close> advances its offset: the hash
  map after the chunk ids of 12 bytes and the offsets and lengths of 10 bytes, the compressed
  blocks after the seeds and the overflow indices that the version has, the names of the
  compression methods after the blocks of 12 bytes.
\<close>

definition hash_map_offset :: "FIoStoreTocHeader \<Rightarrow> nat" where
  "hash_map_offset h = 144 + unat (toc_entry_count h) * 12 + unat (toc_entry_count h) * 10"

definition compressed_blocks_offset :: "FIoStoreTocHeader \<Rightarrow> nat" where
  "compressed_blocks_offset h =
     hash_map_offset h
     + (if FIoStoreTocHeader.version h \<ge> PerfectHash
        then unat (toc_chunk_perfect_hash_seeds_count h) * 4 else 0)
     + (if FIoStoreTocHeader.version h \<ge> PerfectHashWithOverflow
        then unat (toc_chunks_without_perfect_hash_count h) * 4 else 0)"

definition method_names_offset :: "FIoStoreTocHeader \<Rightarrow> nat" where
  "method_names_offset h =
     compressed_blocks_offset h + unat (toc_compressed_block_entry_count h) * 12"

subsection \<open>Enumerating the file paths\<close>

text \<open>
  \<^verbatim>\<open>GetAllFilePaths\<close> indexes the three vectors without a check and follows the links for
  as long as there are any, so it has two outcomes besides a list of paths: an index outside
  its vector (undefined in C++), and no end of the walk.  The walk is given fuel, one unit
  per visited directory, sibling or file.

  The source pushes a directory's name on \<^verbatim>\<open>path\<close> on entry and pops it on exit, so each call
  leaves \<^verbatim>\<open>path\<close> as it found it; the model passes the path of the current directory down.
\<close>

datatype traversal = Paths "std_string list" | OutOfRange | OutOfFuel

definition add_segment :: "std_string \<Rightarrow> std_string \<Rightarrow> std_string" where
  "add_segment fullPath segment =
     (if fullPath \<noteq> [] \<and> last fullPath \<noteq> 0x2F then fullPath @ [0x2F] @ segment
      else fullPath @ segment)"

definition full_path :: "FIoDirectoryIndexResource \<Rightarrow> std_string list \<Rightarrow> std_string" where
  "full_path idx path = foldl add_segment (mount_point idx) path"

fun walk_files ::
  "nat \<Rightarrow> FIoDirectoryIndexResource \<Rightarrow> 32 word option \<Rightarrow> std_string list \<Rightarrow>
     std_string list \<Rightarrow> traversal" where
  "walk_files fuel idx None path result = Paths result"
| "walk_files 0 idx (Some i) path result = OutOfFuel"
| "walk_files (Suc fuel) idx (Some i) path result =
     (if unat i \<ge> length (file_entries idx) then OutOfRange
      else
        let file = file_entries idx ! unat i in
        if unat (FIoFileIndexEntry.name file) \<ge> length (string_table idx) then OutOfRange
        else
          walk_files fuel idx (next_file_entry file) path
            (result @
               [full_path idx (path @ [string_table idx ! unat (FIoFileIndexEntry.name file)])]))"

fun traverseDirectory ::
  "nat \<Rightarrow> FIoDirectoryIndexResource \<Rightarrow> 32 word \<Rightarrow> std_string list \<Rightarrow>
     std_string list \<Rightarrow> traversal"
and walk_children ::
  "nat \<Rightarrow> FIoDirectoryIndexResource \<Rightarrow> 32 word option \<Rightarrow> std_string list \<Rightarrow>
     std_string list \<Rightarrow> traversal" where
  "traverseDirectory 0 idx dirIndex path result = OutOfFuel"
| "traverseDirectory (Suc fuel) idx dirIndex path result =
     (if unat dirIndex \<ge> length (directory_entries idx) then OutOfRange
      else
        let dir = directory_entries idx ! unat dirIndex in
        if (case FIoDirectoryIndexEntry.name dir of
              None \<Rightarrow> False
            | Some n \<Rightarrow> unat n \<ge> length (string_table idx))
        then OutOfRange
        else
          let path' =
            (case FIoDirectoryIndexEntry.name dir of
               None \<Rightarrow> path
             | Some n \<Rightarrow> path @ [string_table idx ! unat n])
          in
          (case walk_files fuel idx (first_file_entry dir) path' result of
             Paths result' \<Rightarrow> walk_children fuel idx (first_child_entry dir) path' result'
           | OutOfRange \<Rightarrow> OutOfRange
           | OutOfFuel \<Rightarrow> OutOfFuel))"
| "walk_children fuel idx None path result = Paths result"
| "walk_children 0 idx (Some c) path result = OutOfFuel"
| "walk_children (Suc fuel) idx (Some c) path result =
     (case traverseDirectory fuel idx c path result of
        Paths result' \<Rightarrow>
          (if unat c \<ge> length (directory_entries idx) then OutOfRange
           else walk_children fuel idx (next_sibling_entry (directory_entries idx ! unat c))
                  path result')
      | OutOfRange \<Rightarrow> OutOfRange
      | OutOfFuel \<Rightarrow> OutOfFuel)"

definition GetAllFilePaths :: "nat \<Rightarrow> FIoDirectoryIndexResource \<Rightarrow> traversal" where
  "GetAllFilePaths fuel idx =
     (if directory_entries idx = [] then Paths [] else traverseDirectory fuel idx 0 [] [])"

text \<open>Every index stored in the directory index is inside the vector it refers to.\<close>

definition opt_below :: "32 word option \<Rightarrow> nat \<Rightarrow> bool" where
  "opt_below x n = (case x of None \<Rightarrow> True | Some i \<Rightarrow> unat i < n)"

definition dir_entry_in_bounds :: "FIoDirectoryIndexResource \<Rightarrow> FIoDirectoryIndexEntry \<Rightarrow> bool" where
  "dir_entry_in_bounds idx d \<longleftrightarrow>
     opt_below (FIoDirectoryIndexEntry.name d) (length (string_table idx)) \<and>
     opt_below (first_child_entry d) (length (directory_entries idx)) \<and>
     opt_below (next_sibling_entry d) (length (directory_entries idx)) \<and>
     opt_below (first_file_entry d) (length (file_entries idx))"

definition file_entry_in_bounds :: "FIoDirectoryIndexResource \<Rightarrow> FIoFileIndexEntry \<Rightarrow> bool" where
  "file_entry_in_bounds idx f \<longleftrightarrow>
     unat (FIoFileIndexEntry.name f) < length (string_table idx) \<and>
     opt_below (next_file_entry f) (length (file_entries idx))"

definition indices_in_bounds :: "FIoDirectoryIndexResource \<Rightarrow> bool" where
  "indices_in_bounds idx \<longleftrightarrow>
     list_all (dir_entry_in_bounds idx) (directory_entries idx) \<and>
     list_all (file_entry_in_bounds idx) (file_entries idx)"

section \<open>Sample UTOC files\<close>

text \<open>A reader whose members are all zero or empty (a value-initialised \<^verbatim>\<open>UtocReader\<close>).\<close>

definition fresh_reader :: UtocReader where
  "fresh_reader =
     \<lparr> header = parse_header (replicate 144 0), chunk_ids = [], chunk_offset_lengths = [],
       chunk_perfect_hash_seeds = [], chunk_indices_without_perfect_hash = [],
       compression_blocks = [], compression_methods = [], chunk_metas = [],
       directory_index =
         \<lparr> FIoDirectoryIndexResource.mount_point = [], directory_entries = [],
           file_entries = [], string_table = [] \<rparr>,
       file_map = Map.empty \<rparr>"

text \<open>
  The 144 bytes of a header with the magic, the given version, declared header size, entry
  count, directory-index size and container flags (each below 256), and zero elsewhere.
\<close>

definition utoc_header_bytes :: "byte \<Rightarrow> byte \<Rightarrow> byte \<Rightarrow> byte \<Rightarrow> byte \<Rightarrow> byte list" where
  "utoc_header_bytes ver hsize entries dirsize cflags =
     MAGIC @ [ver, 0, 0, 0] @ [hsize, 0, 0, 0] @ [entries, 0, 0, 0] @ replicate 20 0 @
     [dirsize, 0, 0, 0] @ replicate 28 0 @ [cflags] @ replicate 63 0"

text \<open>A header alone, with version \<open>Invalid\<close> and declared header size 0.\<close>

definition utoc_unversioned :: "byte list" where
  "utoc_unversioned = utoc_header_bytes 0 0 0 0 0"

text \<open>A file of 144 bytes that does not start with the magic.\<close>

definition utoc_bad_magic :: "byte list" where
  "utoc_bad_magic = replicate 144 1"

text \<open>Version 8, one chunk, container flag Encrypted.\<close>

definition utoc_encrypted :: "byte list" where
  "utoc_encrypted = utoc_header_bytes 8 144 1 0 2 @ replicate 12 7 @ replicate 10 9"

text \<open>
  Version 8, no chunk, container flag Indexed, and a directory index of 32 bytes: an empty
  mount point, one directory entry without name, child or sibling whose first file is entry 5,
  no file entry and no string.
\<close>

definition utoc_dangling :: "byte list" where
  "utoc_dangling = utoc_header_bytes 8 144 0 32 8 @
     [0, 0, 0, 0] @ [1, 0, 0, 0] @
     [0xFF, 0xFF, 0xFF, 0xFF, 0xFF, 0xFF, 0xFF, 0xFF, 0xFF, 0xFF, 0xFF, 0xFF, 5, 0, 0, 0] @
     [0, 0, 0, 0] @ [0, 0, 0, 0]"

definition dangling_index :: FIoDirectoryIndexResource where
  "dangling_index =
     \<lparr> FIoDirectoryIndexResource.mount_point = [],
       directory_entries =
         [\<lparr> FIoDirectoryIndexEntry.name = None, first_child_entry = None,
            next_sibling_entry = None, first_file_entry = Some 5 \<rparr>],
       file_entries = [], string_table = [] \<rparr>"

text \<open>
  The same with a directory index of 50 bytes: the root's first file is entry 0, the one
  file entry has name 0, and the one string is \<open>"a"\<close>.
\<close>

definition utoc_one_file :: "byte list" where
  "utoc_one_file = utoc_header_bytes 8 144 0 50 8 @
     [0, 0, 0, 0] @ [1, 0, 0, 0] @
     [0xFF, 0xFF, 0xFF, 0xFF, 0xFF, 0xFF, 0xFF, 0xFF, 0xFF, 0xFF, 0xFF, 0xFF, 0, 0, 0, 0] @
     [1, 0, 0, 0] @ [0, 0, 0, 0, 0xFF, 0xFF, 0xFF, 0xFF, 0, 0, 0, 0] @
     [1, 0, 0, 0] @ [2, 0, 0, 0, 0x61, 0]"

definition one_file_index :: FIoDirectoryIndexResource where
  "one_file_index =
     \<lparr> FIoDirectoryIndexResource.mount_point = [],
       directory_entries =
         [\<lparr> FIoDirectoryIndexEntry.name = None, first_child_entry = None,
            next_sibling_entry = None, first_file_entry = Some 0 \<rparr>],
       file_entries =
         [\<lparr> FIoFileIndexEntry.name = 0, next_file_entry = None, user_data = 0 \<rparr>],
       string_table = [[0x61]] \<rparr>"

section \<open>The PAK reader\<close>

text \<open>
  The PAK reader reads from a \<^verbatim>\<open>std::ifstream\<close> and never tests the stream.  A read that
  the file cannot satisfy sets the stream's fail bit and leaves the destination, mostly an
  uninitialised local, unwritten in part or whole, so what the source computes from then on
  is indeterminate.
  The model makes this an outcome of its own: a stream read returns \<open>None\<close> when fewer bytes
  than asked for remain, and that outcome is passed on unchanged.  The stream is the file's
  bytes and a position.
\<close>

definition stream_read :: "byte list \<Rightarrow> nat \<Rightarrow> nat \<Rightarrow> (byte list \<times> nat) option" where
  "stream_read file pos n =
     (if pos + n \<le> length file then Some (take n (drop pos file), pos + n) else None)"

text \<open>The 16-bit code units of a byte sequence.\<close>

fun code_units :: "byte list \<Rightarrow> 16 word list" where
  "code_units (a # b # bs) = of_nat (le_nat [a, b]) # code_units bs"
| "code_units bs = []"

subsection \<open>Fixed-width reads\<close>

definition stream_read_word :: "byte list \<Rightarrow> nat \<Rightarrow> ('a::len word \<times> nat) option" where
  "stream_read_word file pos =
     (case stream_read file pos (LENGTH('a) div 8) of
        None \<Rightarrow> None
      | Some (bs, pos') \<Rightarrow> Some (of_nat (le_nat bs), pos'))"

abbreviation read_u8 :: "byte list \<Rightarrow> nat \<Rightarrow> (8 word \<times> nat) option" where
  "read_u8 \<equiv> stream_read_word"

abbreviation read_u32 :: "byte list \<Rightarrow> nat \<Rightarrow> (32 word \<times> nat) option" where
  "read_u32 \<equiv> stream_read_word"

abbreviation read_u64 :: "byte list \<Rightarrow> nat \<Rightarrow> (64 word \<times> nat) option" where
  "read_u64 \<equiv> stream_read_word"

abbreviation read_u128 :: "byte list \<Rightarrow> nat \<Rightarrow> (128 word \<times> nat) option" where
  "read_u128 \<equiv> stream_read_word"

text \<open>\<^verbatim>\<open>read_guid\<close>: 20 bytes.\<close>

definition read_guid :: "byte list \<Rightarrow> nat \<Rightarrow> (byte list \<times> nat) option" where
  "read_guid file pos = stream_read file pos 20"

text \<open>
  The exceptions that reach the handler of the constructor.  Those of the reader are all of
  the one class \<^verbatim>\<open>PakException\<close> and differ in the message only; there is one constructor for
  each \<^verbatim>\<open>throw\<close> of the source.  The last two are those of the standard library that an
  allocation throws: \<^verbatim>\<open>std::bad_alloc\<close> and \<^verbatim>\<open>std::length_error\<close>.
\<close>

datatype pak_error =
    FailedToOpenFile
  | InvalidBooleanValue byte
  | InvalidMagicNumber "32 word"
  | VersionMismatch
  | IndexIsEncrypted
  | FailedToReadPakFile
  | BadAlloc
  | LengthError

text \<open>
  Memory.  Two allocations of the reader have a size that is a number of the file, taken
  before any of the bytes that the number announces is read: the vector of \<^verbatim>\<open>read_string\<close> and
  \<^verbatim>\<open>blocks.reserve(block_count)\<close> of \<^verbatim>\<open>read_entry\<close>.  Whether such a request is granted depends
  on the machine.  The readers take a parameter \<open>heap\<close> that says which sizes, in bytes, are
  granted; a request that is not granted throws \<^verbatim>\<open>std::bad_alloc\<close>, and a vector of more
  elements than its \<^verbatim>\<open>max_size()\<close> throws \<^verbatim>\<open>std::length_error\<close>.  A request for no bytes
  allocates nothing.  The other allocations of the reader hold bytes that were read, or have
  a small fixed size, and are taken to succeed.
\<close>

type_synonym heap = "nat \<Rightarrow> bool"

text \<open>
  What a reader that may throw ends in: a value, an exception together with what the
  enclosing loop had stored when it was thrown, or a read that the file could not satisfy.
\<close>

datatype ('a, 's) result = Done 'a | Raised pak_error 's | Short

text \<open>
  Sequencing for these readers: go on with the value read and the position after it; stop
  with \<open>Short\<close>, or with the exception of the first reader.
\<close>

definition then_read ::
  "('a \<times> nat) option \<Rightarrow> ('a \<Rightarrow> nat \<Rightarrow> ('b, 's) result) \<Rightarrow> ('b, 's) result" where
  "then_read r k = (case r of None \<Rightarrow> Short | Some (x, pos) \<Rightarrow> k x pos)"

definition after ::
  "('a \<times> nat, 's) result \<Rightarrow> ('a \<Rightarrow> nat \<Rightarrow> ('b, 's) result) \<Rightarrow> ('b, 's) result" where
  "after r k = (case r of Done (x, pos) \<Rightarrow> k x pos | Raised e s \<Rightarrow> Raised e s | Short \<Rightarrow> Short)"

text \<open>
  \<^verbatim>\<open>read_string\<close> of \<^verbatim>\<open>pak_reader.cpp\<close>.  The vector of the code units, of two bytes each, or
  of the characters is allocated from the declared length, then filled in one read; the
  string stops at the first zero code unit, and a code unit of 128 or more becomes \<^verbatim>\<open>'?'\<close>.
  The negation of the least length overflows: the target computes the least length again,
  which converted to \<^verbatim>\<open>size_t\<close> is \<open>2^64 - 2^31\<close> elements, more than the \<^verbatim>\<open>max_size()\<close> of the
  vector, and the constructor throws \<^verbatim>\<open>std::length_error\<close>.
\<close>

definition read_string :: "heap \<Rightarrow> byte list \<Rightarrow> nat \<Rightarrow> (std_string \<times> nat, unit) result" where
  "read_string heap file pos =
     then_read (stream_read file pos 4)
       (\<lambda>lb pos1.
     let len = sint (of_nat (le_nat lb) :: 32 word) in
     if len < 0 then
       (if len = - 2147483648 then Raised LengthError ()
        else if \<not> heap (nat (- len) * 2) then Raised BadAlloc ()
        else
          then_read (stream_read file pos1 (nat (- len) * 2))
            (\<lambda>cb pos2.
               Done (map (\<lambda>c. if c < 128 then ucast c else 0x3F)
                       (takeWhile (\<lambda>c. c \<noteq> 0) (code_units cb)), pos2)))
     else if 0 < len \<and> \<not> heap (nat len) then Raised BadAlloc ()
     else
       then_read (stream_read file pos1 (nat len))
         (\<lambda>chars pos2. Done (takeWhile (\<lambda>b. b \<noteq> 0) chars, pos2)))"

text \<open>\<^verbatim>\<open>read_bool\<close>: a byte that is neither 0 nor 1 is an exception.\<close>

definition read_bool :: "byte list \<Rightarrow> nat \<Rightarrow> ((pak_error + bool) \<times> nat) option" where
  "read_bool file pos =
     (case read_u8 file pos of
        None \<Rightarrow> None
      | Some (v, pos') \<Rightarrow>
          Some (if v \<noteq> 0 \<and> v \<noteq> 1 then Inl (InvalidBooleanValue v) else Inr (v = 1), pos'))"

subsection \<open>Versions\<close>

datatype Version = V0 | V1 | V2 | V3 | V4 | V5 | V6 | V7 | V8A | V8B | V9 | V10 | V11

datatype VersionMajor =
    Unknown | Initial | NoTimestamps | CompressionEncryption | IndexEncryption
  | RelativeChunkOffsets | DeleteRecords | EncryptionKeyGuid | FNameBasedCompression
  | FrozenIndex | PathHashIndex | Fnv64BugFix

datatype Compression = Zlib | Gzip | Oodle | Zstd | LZ4

text \<open>The values of the enumerators; the comparisons of the source compare these.\<close>

fun version_num :: "Version \<Rightarrow> int" where
  "version_num V0 = 0" | "version_num V1 = 1" | "version_num V2 = 2" | "version_num V3 = 3"
| "version_num V4 = 4" | "version_num V5 = 5" | "version_num V6 = 6" | "version_num V7 = 7"
| "version_num V8A = 8" | "version_num V8B = 9" | "version_num V9 = 10"
| "version_num V10 = 11" | "version_num V11 = 12"

fun major_num :: "VersionMajor \<Rightarrow> int" where
  "major_num Unknown = 0" | "major_num Initial = 1" | "major_num NoTimestamps = 2"
| "major_num CompressionEncryption = 3" | "major_num IndexEncryption = 4"
| "major_num RelativeChunkOffsets = 5" | "major_num DeleteRecords = 6"
| "major_num EncryptionKeyGuid = 7" | "major_num FNameBasedCompression = 8"
| "major_num FrozenIndex = 9" | "major_num PathHashIndex = 10" | "major_num Fnv64BugFix = 11"

fun version_to_major :: "Version \<Rightarrow> VersionMajor" where
  "version_to_major V0 = Unknown"
| "version_to_major V1 = Initial"
| "version_to_major V2 = NoTimestamps"
| "version_to_major V3 = CompressionEncryption"
| "version_to_major V4 = IndexEncryption"
| "version_to_major V5 = RelativeChunkOffsets"
| "version_to_major V6 = DeleteRecords"
| "version_to_major V7 = EncryptionKeyGuid"
| "version_to_major V8A = FNameBasedCompression"
| "version_to_major V8B = FNameBasedCompression"
| "version_to_major V9 = FrozenIndex"
| "version_to_major V10 = PathHashIndex"
| "version_to_major V11 = Fnv64BugFix"

definition get_footer_size :: "Version \<Rightarrow> int" where
  "get_footer_size ver =
     4 + 4 + 8 + 8 + 20
     + (if major_num (version_to_major ver) \<ge> major_num EncryptionKeyGuid then 16 else 0)
     + (if major_num (version_to_major ver) \<ge> major_num IndexEncryption then 1 else 0)
     + (if version_to_major ver = FrozenIndex then 1 else 0)
     + (if version_num ver \<ge> version_num V8A then 32 * 4 else 0)
     + (if version_num ver \<ge> version_num V8B then 32 else 0)"

subsection \<open>Footer, entries and the reader\<close>

definition pak_MAGIC :: "32 word" where
  "pak_MAGIC = 0x5A6F12E1"

text \<open>
  \<^verbatim>\<open>version_major\<close> holds the 32-bit value of the file cast to the enumeration, whose
  underlying type is \<^verbatim>\<open>int\<close>: the field is that integer.
\<close>

record Footer =
  encryption_uuid :: "128 word option"
  encrypted :: bool
  magic :: "32 word"
  version :: Version
  version_major :: int
  index_offset :: "64 word"
  index_size :: "64 word"
  hash :: "byte list"
  frozen :: bool
  compression :: "Compression option list"

record Block =
  start :: "64 word"
  end' :: "64 word"

record Entry =
  offset :: "64 word"
  compressed_size :: "64 word"
  uncompressed_size :: "64 word"
  compression_slot :: "32 word option"
  timestamp :: "64 word option"
  hash :: "byte list"
  blocks :: "Block list option"
  flags :: byte
  compression_block_size :: "32 word"

text \<open>
  \<^verbatim>\<open>std::map<std::string, Entry>\<close>: the pairs in increasing order of the keys.
  \<open>map_assign\<close> is \<^verbatim>\<open>entries_[path] = entry\<close>.
\<close>

fun map_assign :: "std_string \<Rightarrow> 'v \<Rightarrow> (std_string \<times> 'v) list \<Rightarrow> (std_string \<times> 'v) list" where
  "map_assign k v [] = [(k, v)]"
| "map_assign k v ((k', v') # kvs) =
     (if k < k' then (k, v) # (k', v') # kvs
      else if k' < k then (k', v') # map_assign k v kvs
      else (k', v) # kvs)"

text \<open>
  The members of \<^verbatim>\<open>PakReader::Impl\<close> that the decoding assigns.  The stream needs no member:
  \<^verbatim>\<open>read_footer\<close> and \<^verbatim>\<open>read_index\<close> both start with an absolute seek, so its position never
  carries over from one call to the next.
\<close>

record Impl =
  footer :: Footer
  mount_point :: std_string
  entries :: "(std_string \<times> Entry) list"

text \<open>
  The outcome of \<^verbatim>\<open>read_footer\<close> and of \<^verbatim>\<open>read_index\<close>: the members after a normal return, an
  exception together with the members as they are when it is thrown, or a read that the
  file could not satisfy.
\<close>

datatype outcome = Ok Impl | Threw pak_error Impl | StreamFailed

text \<open>
  Sequencing: go on with the value read and the position after it, or stop with
  \<open>StreamFailed\<close>; for \<^verbatim>\<open>read_bool\<close>, stop also with its exception, thrown in the state \<open>st\<close>.
\<close>

definition reading :: "('a \<times> nat) option \<Rightarrow> ('a \<Rightarrow> nat \<Rightarrow> outcome) \<Rightarrow> outcome" where
  "reading r k = (case r of None \<Rightarrow> StreamFailed | Some (x, pos) \<Rightarrow> k x pos)"

definition reading_bool ::
  "((pak_error + bool) \<times> nat) option \<Rightarrow> Impl \<Rightarrow> (bool \<Rightarrow> nat \<Rightarrow> outcome) \<Rightarrow> outcome" where
  "reading_bool r st k =
     (case r of
        None \<Rightarrow> StreamFailed
      | Some (Inl e, pos) \<Rightarrow> Threw e st
      | Some (Inr b, pos) \<Rightarrow> k b pos)"

subsection \<open>Footer\<close>

text \<open>The compression name of a 32-byte field: the bytes before the first zero byte.\<close>

definition compression_of_name :: "byte list \<Rightarrow> Compression option" where
  "compression_of_name nm =
     (let compression_name = takeWhile (\<lambda>b. b \<noteq> 0) nm in
      if compression_name = [] then None
      else if compression_name = [0x5A, 0x6C, 0x69, 0x62] then Some Zlib
      else if compression_name = [0x47, 0x7A, 0x69, 0x70] then Some Gzip
      else if compression_name = [0x4F, 0x6F, 0x64, 0x6C, 0x65] then Some Oodle
      else if compression_name = [0x5A, 0x73, 0x74, 0x64] then Some Zstd
      else if compression_name = [0x4C, 0x5A, 0x34] then Some LZ4
      else None)"

text \<open>
  The loop over the compression names.  \<^verbatim>\<open>footer_.compression\<close> is resized to the count and
  every slot is assigned, so the vector after the loop is the list of the names read.
\<close>

fun read_compression_names ::
  "byte list \<Rightarrow> nat \<Rightarrow> nat \<Rightarrow> (Compression option list \<times> nat) option" where
  "read_compression_names file pos 0 = Some ([], pos)"
| "read_compression_names file pos (Suc n) =
     (case stream_read file pos 32 of
        None \<Rightarrow> None
      | Some (nm, pos') \<Rightarrow>
         (case read_compression_names file pos' n of
            None \<Rightarrow> None
          | Some (cs, pos'') \<Rightarrow> Some (compression_of_name nm # cs, pos'')))"

text \<open>
  \<^verbatim>\<open>read_footer\<close>.  The seek goes \<^verbatim>\<open>get_footer_size(version)\<close> bytes back from the end of the
  file; in a shorter file it fails and the read that follows does.  Each member of
  \<^verbatim>\<open>footer_\<close> is assigned where the source assigns it, so the state carried by an exception
  holds the members assigned before the \<^verbatim>\<open>throw\<close>.
\<close>

definition read_footer :: "byte list \<Rightarrow> Version \<Rightarrow> Impl \<Rightarrow> outcome" where
  "read_footer file ver st =
     (if int (length file) < get_footer_size ver then StreamFailed
      else
        reading
          (if major_num (version_to_major ver) \<ge> major_num EncryptionKeyGuid
           then map_option (\<lambda>(uuid, p). (Some uuid, p))
                  (read_u128 file (length file - nat (get_footer_size ver)))
           else Some (None, length file - nat (get_footer_size ver)))
          (\<lambda>uuid pos1.
        let st = st\<lparr> footer := (footer st)\<lparr> encryption_uuid := uuid \<rparr> \<rparr> in
        reading_bool
          (if major_num (version_to_major ver) \<ge> major_num IndexEncryption
           then read_bool file pos1
           else Some (Inr False, pos1)) st
          (\<lambda>enc pos2.
        let st = st\<lparr> footer := (footer st)\<lparr> encrypted := enc \<rparr> \<rparr> in
        reading (read_u32 file pos2)
          (\<lambda>mg pos3.
        if mg \<noteq> pak_MAGIC then Threw (InvalidMagicNumber mg) st
        else
        let st = st\<lparr> footer := (footer st)\<lparr> magic := mg \<rparr> \<rparr> in
        reading (read_u32 file pos3)
          (\<lambda>vm pos4.
        let st = st\<lparr> footer := (footer st)\<lparr> version_major := sint vm \<rparr> \<rparr> in
        if major_num (version_to_major ver) \<noteq> version_major (footer st)
        then Threw VersionMismatch st
        else
        reading (read_u64 file pos4)
          (\<lambda>ioff pos5.
        let st = st\<lparr> footer := (footer st)\<lparr> index_offset := ioff \<rparr> \<rparr> in
        reading (read_u64 file pos5)
          (\<lambda>isz pos6.
        let st = st\<lparr> footer := (footer st)\<lparr> index_size := isz \<rparr> \<rparr> in
        reading (read_guid file pos6)
          (\<lambda>h pos7.
        let st = st\<lparr> footer := (footer st)\<lparr> Footer.hash := h \<rparr> \<rparr> in
        reading_bool
          (if version_to_major ver = FrozenIndex
           then read_bool file pos7
           else Some (Inr False, pos7)) st
          (\<lambda>fr pos8.
        let st = st\<lparr> footer := (footer st)\<lparr> frozen := fr \<rparr> \<rparr> in
        reading
          (read_compression_names file pos8
             (if version_num ver < version_num V8A then 0
              else if version_num ver < version_num V8B then 4
              else 5))
          (\<lambda>cs pos9.
        let cs' =
          (if major_num (version_to_major ver) < major_num FNameBasedCompression
           then cs @ [Some Zlib, Some Gzip, Some Oodle]
           else cs)
        in Ok (st\<lparr> footer := (footer st)\<lparr> compression := cs', version := ver \<rparr> \<rparr>)))))))))))"

subsection \<open>Entries\<close>

fun read_blocks :: "byte list \<Rightarrow> nat \<Rightarrow> nat \<Rightarrow> (Block list \<times> nat) option" where
  "read_blocks file pos 0 = Some ([], pos)"
| "read_blocks file pos (Suc n) =
     (case read_u64 file pos of
        None \<Rightarrow> None
      | Some (s, pos1) \<Rightarrow>
         (case read_u64 file pos1 of
            None \<Rightarrow> None
          | Some (e, pos2) \<Rightarrow>
             (case read_blocks file pos2 n of
                None \<Rightarrow> None
              | Some (bs, pos3) \<Rightarrow> Some (\<lparr> start = s, end' = e \<rparr> # bs, pos3))))"

text \<open>
  The block list of \<^verbatim>\<open>read_entry\<close>.  \<^verbatim>\<open>blocks.reserve(block_count)\<close> asks for the memory of all the
  blocks, of 16 bytes each, before the first one is read.
\<close>

definition read_entry_blocks ::
  "heap \<Rightarrow> Footer \<Rightarrow> 32 word option \<Rightarrow> byte list \<Rightarrow> nat \<Rightarrow> (Block list option \<times> nat, unit) result"
  where
  "read_entry_blocks heap ft slot file pos =
     (if version_major ft \<ge> major_num CompressionEncryption \<and> slot \<noteq> None then
        then_read (read_u32 file pos)
          (\<lambda>block_count pos1.
        if block_count \<noteq> 0 \<and> \<not> heap (unat block_count * 16) then Raised BadAlloc ()
        else
          then_read (read_blocks file pos1 (unat block_count))
            (\<lambda>bs pos2. Done (Some bs, pos2)))
      else Done (None, pos))"

text \<open>\<^verbatim>\<open>read_entry\<close>; it reads \<^verbatim>\<open>footer_.version\<close> and \<^verbatim>\<open>footer_.version_major\<close>.\<close>

definition read_entry :: "heap \<Rightarrow> Footer \<Rightarrow> byte list \<Rightarrow> nat \<Rightarrow> (Entry \<times> nat, unit) result" where
  "read_entry heap ft file pos0 =
     then_read (read_u64 file pos0)
       (\<lambda>off pos1.
     then_read (read_u64 file pos1)
       (\<lambda>csize pos2.
     then_read (read_u64 file pos2)
       (\<lambda>usize pos3.
     then_read
       (if version ft = V8A
        then map_option (\<lambda>(c, p). (if c = 0 then None else Some (ucast c - 1), p))
               (read_u8 file pos3)
        else map_option (\<lambda>(c, p). (if c = 0 then None else Some (c - 1), p))
               (read_u32 file pos3))
       (\<lambda>slot pos4.
     then_read
       (if version_major ft = major_num Initial
        then map_option (\<lambda>(t, p). (Some t, p)) (read_u64 file pos4)
        else Some (None, pos4))
       (\<lambda>ts pos5.
     then_read (read_guid file pos5)
       (\<lambda>h pos6.
     after (read_entry_blocks heap ft slot file pos6)
       (\<lambda>bl pos7.
     then_read
       (if version_major ft \<ge> major_num CompressionEncryption
        then Option.bind (read_u8 file pos7)
               (\<lambda>(f, p). map_option (\<lambda>(b, p'). ((f, b), p')) (read_u32 file p))
        else Some ((0, 0), pos7))
       (\<lambda>(fl, cbs) pos8.
     Done (\<lparr> offset = off, compressed_size = csize, uncompressed_size = usize,
             compression_slot = slot, timestamp = ts, Entry.hash = h, blocks = bl,
             flags = fl, compression_block_size = cbs \<rparr>, pos8)))))))))"

text \<open>
  The entry that the full-directory-index branch stores for each file: the five assigned
  members are zero and the two optionals and the block list are absent.  The source leaves
  \<^verbatim>\<open>hash\<close> unassigned; it is all zero here.
\<close>

definition dummy_entry :: Entry where
  "dummy_entry =
     \<lparr> offset = 0, compressed_size = 0, uncompressed_size = 0, compression_slot = None,
       timestamp = None, Entry.hash = replicate 20 0, blocks = None, flags = 0,
       compression_block_size = 0 \<rparr>"

subsection \<open>Index\<close>

text \<open>
  The loops of \<^verbatim>\<open>read_index\<close> assign to \<^verbatim>\<open>entries_\<close> as they go.  An exception leaves a loop with
  the map as it is then: the pairs of the rounds before are stored.

  The loop of the flat index: a path and an entry record, stored under the path.
\<close>

fun read_entries ::
  "heap \<Rightarrow> byte list \<Rightarrow> Footer \<Rightarrow> nat \<Rightarrow> (std_string \<times> Entry) list \<Rightarrow> nat \<Rightarrow>
     ((std_string \<times> Entry) list \<times> nat, (std_string \<times> Entry) list) result" where
  "read_entries heap file ft 0 es pos = Done (es, pos)"
| "read_entries heap file ft (Suc n) es pos =
     (case read_string heap file pos of
        Short \<Rightarrow> Short
      | Raised e u \<Rightarrow> Raised e es
      | Done (path, pos1) \<Rightarrow>
         (case read_entry heap ft file pos1 of
            Short \<Rightarrow> Short
          | Raised e u \<Rightarrow> Raised e es
          | Done (entry, pos2) \<Rightarrow>
              read_entries heap file ft n (map_assign path entry es) pos2))"

text \<open>
  The path of a file of the full directory index: the directory name, a \<^verbatim>\<open>'/'\<close> unless the
  name is empty or ends in one, the file name; then one leading \<^verbatim>\<open>'/'\<close> is removed.
\<close>

definition full_directory_path :: "std_string \<Rightarrow> std_string \<Rightarrow> std_string" where
  "full_directory_path dir_name file_name =
     (let path = dir_name;
          path = (if path \<noteq> [] \<and> last path \<noteq> 0x2F then path @ [0x2F] else path);
          path = path @ file_name
      in if path \<noteq> [] \<and> hd path = 0x2F then tl path else path)"

text \<open>The inner loop: the files of one directory.\<close>

fun read_directory_files ::
  "heap \<Rightarrow> byte list \<Rightarrow> std_string \<Rightarrow> nat \<Rightarrow> (std_string \<times> Entry) list \<Rightarrow> nat \<Rightarrow>
     ((std_string \<times> Entry) list \<times> nat, (std_string \<times> Entry) list) result" where
  "read_directory_files heap file dir_name 0 es pos = Done (es, pos)"
| "read_directory_files heap file dir_name (Suc n) es pos =
     (case read_string heap file pos of
        Short \<Rightarrow> Short
      | Raised e u \<Rightarrow> Raised e es
      | Done (file_name, pos1) \<Rightarrow>
         (case read_u32 file pos1 of
            None \<Rightarrow> Short
          | Some (encoded_offset, pos2) \<Rightarrow>
              if encoded_offset = 0x80000000
              then read_directory_files heap file dir_name n es pos2
              else read_directory_files heap file dir_name n
                     (map_assign (full_directory_path dir_name file_name) dummy_entry es) pos2))"

text \<open>The outer loop: the directories.\<close>

fun read_directories ::
  "heap \<Rightarrow> byte list \<Rightarrow> nat \<Rightarrow> (std_string \<times> Entry) list \<Rightarrow> nat \<Rightarrow>
     ((std_string \<times> Entry) list \<times> nat, (std_string \<times> Entry) list) result" where
  "read_directories heap file 0 es pos = Done (es, pos)"
| "read_directories heap file (Suc n) es pos =
     (case read_string heap file pos of
        Short \<Rightarrow> Short
      | Raised e u \<Rightarrow> Raised e es
      | Done (dir_name, pos1) \<Rightarrow>
         (case read_u32 file pos1 of
            None \<Rightarrow> Short
          | Some (file_count, pos2) \<Rightarrow>
             (case read_directory_files heap file dir_name (unat file_count) es pos2 of
                Short \<Rightarrow> Short
              | Raised e es' \<Rightarrow> Raised e es'
              | Done (es', pos3) \<Rightarrow> read_directories heap file n es' pos3)))"

text \<open>
  The branch of \<^verbatim>\<open>read_index\<close> for \<^verbatim>\<open>PathHashIndex\<close> and later, from the path-hash seed on.
  The two skips of 20 bytes move the position only; the position saved after the second one
  is restored at the end, after the last read.
\<close>

definition read_path_hash_index ::
  "heap \<Rightarrow> byte list \<Rightarrow> (std_string \<times> Entry) list \<Rightarrow> nat \<Rightarrow>
     ((std_string \<times> Entry) list, (std_string \<times> Entry) list) result" where
  "read_path_hash_index heap file es pos0 =
     then_read (read_u64 file pos0)
       (\<lambda>path_hash_seed pos1.
     then_read (read_u32 file pos1)
       (\<lambda>has_path_hash_index pos2.
     then_read
       (if has_path_hash_index \<noteq> 0
        then Option.bind (read_u64 file pos2)
               (\<lambda>(path_hash_index_offset, p).
                  map_option (\<lambda>(path_hash_index_size, p'). ((), p' + 20)) (read_u64 file p))
        else Some ((), pos2))
       (\<lambda>skipped pos3.
     then_read (read_u32 file pos3)
       (\<lambda>has_full_directory_index pos4.
     if has_full_directory_index \<noteq> 0 then
       then_read (read_u64 file pos4)
         (\<lambda>full_directory_index_offset pos5.
       then_read (read_u64 file pos5)
         (\<lambda>full_directory_index_size pos6.
       then_read (read_u32 file (unat full_directory_index_offset))
         (\<lambda>dir_count pos7.
       (case read_directories heap file (unat dir_count) es pos7 of
          Short \<Rightarrow> Short
        | Raised e es' \<Rightarrow> Raised e es'
        | Done (es', pos8) \<Rightarrow> Done es'))))
     else Done es))))"

text \<open>
  \<^verbatim>\<open>read_index\<close>.  The refusal of an encrypted index comes before the first read.  The mount
  point is assigned when its string has been read.  An exception of the strings or of the
  entries leaves \<^verbatim>\<open>read_index\<close> with the entries stored so far in \<^verbatim>\<open>entries_\<close>.
\<close>

definition read_index :: "heap \<Rightarrow> byte list \<Rightarrow> Impl \<Rightarrow> outcome" where
  "read_index heap file st =
     (if encrypted (footer st) then Threw IndexIsEncrypted st
      else
        (case read_string heap file (unat (index_offset (footer st))) of
           Short \<Rightarrow> StreamFailed
         | Raised e u \<Rightarrow> Threw e st
         | Done (mp, pos1) \<Rightarrow>
        let st = st\<lparr> mount_point := mp \<rparr> in
        reading (read_u32 file pos1)
          (\<lambda>entry_count pos2.
        if version_major (footer st) \<ge> major_num PathHashIndex then
          (case read_path_hash_index heap file (entries st) pos2 of
             Short \<Rightarrow> StreamFailed
           | Raised e es \<Rightarrow> Threw e (st\<lparr> entries := es \<rparr>)
           | Done es \<Rightarrow> Ok (st\<lparr> entries := es \<rparr>))
        else
          (case read_entries heap file (footer st) (unat entry_count) (entries st) pos2 of
             Short \<Rightarrow> StreamFailed
           | Raised e es \<Rightarrow> Threw e (st\<lparr> entries := es \<rparr>)
           | Done (es, pos3) \<Rightarrow> Ok (st\<lparr> entries := es \<rparr>)))))"

subsection \<open>The version probe\<close>

text \<open>
  What the constructor of \<^verbatim>\<open>PakReader::Impl\<close> ends in: a reader, an exception (no object
  exists then), or a read that the file could not satisfy.
\<close>

datatype construction = Opened Impl | Failed pak_error | Unsatisfied

text \<open>
  The loop of the constructor over the candidate versions.  The handler catches
  \<^verbatim>\<open>std::exception\<close>, that is every exception of the reader and of the allocations, resets the
  stream and goes on with the next candidate.  It resets nothing else: the footer, the mount
  point and the entries keep what the failed attempt assigned.
\<close>

fun probe :: "heap \<Rightarrow> byte list \<Rightarrow> Version list \<Rightarrow> Impl \<Rightarrow> construction" where
  "probe heap file [] st = Failed FailedToReadPakFile"
| "probe heap file (v # vs) st =
     (case read_footer file v st of
        StreamFailed \<Rightarrow> Unsatisfied
      | Threw e st' \<Rightarrow> probe heap file vs st'
      | Ok st' \<Rightarrow>
         (case read_index heap file st' of
            StreamFailed \<Rightarrow> Unsatisfied
          | Threw e st'' \<Rightarrow> probe heap file vs st''
          | Ok st'' \<Rightarrow> Opened st''))"

definition candidate_versions :: "Version list" where
  "candidate_versions = [V11, V10, V9, V8B, V8A, V7, V6, V5, V4, V3, V2, V1]"

text \<open>
  The constructor.  The arguments are the memory, the content of the file, \<open>None\<close> when the
  file cannot be opened, and the footer that the object starts with: a default-initialised
  \<^verbatim>\<open>Footer\<close>, whose scalar members are indeterminate.
\<close>

definition Impl_new :: "heap \<Rightarrow> byte list option \<Rightarrow> Footer \<Rightarrow> construction" where
  "Impl_new heap file ft0 =
     (case file of
        None \<Rightarrow> Failed FailedToOpenFile
      | Some data \<Rightarrow>
          probe heap data candidate_versions \<lparr> footer = ft0, mount_point = [], entries = [] \<rparr>)"

text \<open>\<^verbatim>\<open>files()\<close>: the keys of the map, in the order of the map.\<close>

definition files :: "Impl \<Rightarrow> std_string list" where
  "files st = map fst (entries st)"

subsection \<open>The assignments of an index, in file order\<close>

text \<open>
  The loops of \<^verbatim>\<open>read_index\<close> once more, for an index that is read to its end: they return
  what the loops assign to \<^verbatim>\<open>entries_\<close>, in the order of the file, instead of storing it.  They
  serve to say which paths the accepted index gives to a model and which of several entries
  of one path the model keeps.

  The pairs of the flat index.
\<close>

fun listed_entries ::
  "heap \<Rightarrow> byte list \<Rightarrow> Footer \<Rightarrow> nat \<Rightarrow> nat \<Rightarrow> ((std_string \<times> Entry) list \<times> nat) option" where
  "listed_entries heap file ft 0 pos = Some ([], pos)"
| "listed_entries heap file ft (Suc n) pos =
     (case read_string heap file pos of
        Done (path, pos1) \<Rightarrow>
         (case read_entry heap ft file pos1 of
            Done (entry, pos2) \<Rightarrow>
             (case listed_entries heap file ft n pos2 of
                None \<Rightarrow> None
              | Some (ps, pos3) \<Rightarrow> Some ((path, entry) # ps, pos3))
          | _ \<Rightarrow> None)
      | _ \<Rightarrow> None)"

text \<open>
  The names of the full directory index: for each file whose encoded offset is not
  \<open>0x80000000\<close>, the name of its directory and its own name, as they are read.
\<close>

fun listed_file_names ::
  "heap \<Rightarrow> byte list \<Rightarrow> std_string \<Rightarrow> nat \<Rightarrow> nat \<Rightarrow>
     ((std_string \<times> std_string) list \<times> nat) option" where
  "listed_file_names heap file dir_name 0 pos = Some ([], pos)"
| "listed_file_names heap file dir_name (Suc n) pos =
     (case read_string heap file pos of
        Done (file_name, pos1) \<Rightarrow>
         (case read_u32 file pos1 of
            None \<Rightarrow> None
          | Some (encoded_offset, pos2) \<Rightarrow>
             (case listed_file_names heap file dir_name n pos2 of
                None \<Rightarrow> None
              | Some (ns, pos3) \<Rightarrow>
                  if encoded_offset = 0x80000000 then Some (ns, pos3)
                  else Some ((dir_name, file_name) # ns, pos3)))
      | _ \<Rightarrow> None)"

fun listed_names ::
  "heap \<Rightarrow> byte list \<Rightarrow> nat \<Rightarrow> nat \<Rightarrow> ((std_string \<times> std_string) list \<times> nat) option" where
  "listed_names heap file 0 pos = Some ([], pos)"
| "listed_names heap file (Suc n) pos =
     (case read_string heap file pos of
        Done (dir_name, pos1) \<Rightarrow>
         (case read_u32 file pos1 of
            None \<Rightarrow> None
          | Some (file_count, pos2) \<Rightarrow>
             (case listed_file_names heap file dir_name (unat file_count) pos2 of
                None \<Rightarrow> None
              | Some (ns, pos3) \<Rightarrow>
                 (case listed_names heap file n pos3 of
                    None \<Rightarrow> None
                  | Some (ms, pos4) \<Rightarrow> Some (ns @ ms, pos4))))
      | _ \<Rightarrow> None)"

definition listed_path_hash_index ::
  "heap \<Rightarrow> byte list \<Rightarrow> nat \<Rightarrow> (std_string \<times> std_string) list option" where
  "listed_path_hash_index heap file pos =
     do {
       (path_hash_seed, pos) \<leftarrow> read_u64 file pos;
       (has_path_hash_index, pos) \<leftarrow> read_u32 file pos;
       pos \<leftarrow>
         (if has_path_hash_index \<noteq> 0 then
            do {
              (path_hash_index_offset, pos) \<leftarrow> read_u64 file pos;
              (path_hash_index_size, pos) \<leftarrow> read_u64 file pos;
              Some (pos + 20)
            }
          else Some pos);
       (has_full_directory_index, pos) \<leftarrow> read_u32 file pos;
       if has_full_directory_index \<noteq> 0 then
         do {
           (full_directory_index_offset, pos) \<leftarrow> read_u64 file pos;
           (full_directory_index_size, pos) \<leftarrow> read_u64 file pos;
           (dir_count, pos) \<leftarrow> read_u32 file (unat full_directory_index_offset);
           (ns, pos) \<leftarrow> listed_names heap file (unat dir_count) pos;
           Some ns
         }
       else Some []
     }"

text \<open>The mount point and the entry count, which come before both kinds of index.\<close>

definition index_start :: "heap \<Rightarrow> byte list \<Rightarrow> Footer \<Rightarrow> (32 word \<times> nat) option" where
  "index_start heap file ft =
     (case read_string heap file (unat (index_offset ft)) of
        Done (mp, pos) \<Rightarrow> read_u32 file pos
      | _ \<Rightarrow> None)"

text \<open>
  The directory and file names of the index of a footer of \<open>PathHashIndex\<close> or later, and the
  pairs that \<^verbatim>\<open>read_index\<close> assigns for them.
\<close>

definition index_names ::
  "heap \<Rightarrow> byte list \<Rightarrow> Footer \<Rightarrow> (std_string \<times> std_string) list option" where
  "index_names heap file ft =
     do {
       (entry_count, pos) \<leftarrow> index_start heap file ft;
       listed_path_hash_index heap file pos
     }"

definition placeholders :: "(std_string \<times> std_string) list \<Rightarrow> (std_string \<times> Entry) list" where
  "placeholders ns = map (\<lambda>(d, f). (full_directory_path d f, dummy_entry)) ns"

text \<open>The pairs that \<^verbatim>\<open>read_index\<close> assigns for the index of a footer.\<close>

definition index_assignments ::
  "heap \<Rightarrow> byte list \<Rightarrow> Footer \<Rightarrow> (std_string \<times> Entry) list option" where
  "index_assignments heap file ft =
     (if version_major ft \<ge> major_num PathHashIndex
      then map_option placeholders (index_names heap file ft)
      else
        do {
          (entry_count, pos) \<leftarrow> index_start heap file ft;
          map_option fst (listed_entries heap file ft (unat entry_count) pos)
        })"

text \<open>Assigning a list of pairs to a map, first pair first.\<close>

definition assign_all ::
  "(std_string \<times> 'v) list \<Rightarrow> (std_string \<times> 'v) list \<Rightarrow> (std_string \<times> 'v) list" where
  "assign_all es ps = foldl (\<lambda>es (k, v). map_assign k v es) es ps"

text \<open>The path of the full directory index before the leading \<^verbatim>\<open>'/'\<close> is removed.\<close>

definition joined_path :: "std_string \<Rightarrow> std_string \<Rightarrow> std_string" where
  "joined_path dir_name file_name =
     (if dir_name \<noteq> [] \<and> last dir_name \<noteq> 0x2F then dir_name @ [0x2F] else dir_name)
     @ file_name"

subsection \<open>Predicates for the proofs\<close>

text \<open>\<open>P\<close> holds of the state of a normal return and \<open>Q\<close> of the state of an exception.\<close>

definition outcome_all :: "(Impl \<Rightarrow> bool) \<Rightarrow> (Impl \<Rightarrow> bool) \<Rightarrow> outcome \<Rightarrow> bool" where
  "outcome_all P Q r = (case r of Ok s \<Rightarrow> P s | Threw e s \<Rightarrow> Q s | StreamFailed \<Rightarrow> True)"

text \<open>The map that a loop leaves, by a normal return or by an exception.\<close>

fun stored ::
  "((std_string \<times> Entry) list \<times> nat, (std_string \<times> Entry) list) result \<Rightarrow>
     (std_string \<times> Entry) list option" where
  "stored (Done (es, pos)) = Some es"
| "stored (Raised e es) = Some es"
| "stored Short = None"

text \<open>
  The declared version of a footer of 221 bytes, which is 200 bytes before the end of the
  file.
\<close>

definition declared_major :: "byte list \<Rightarrow> int" where
  "declared_major file = sint (of_nat (le_nat (take 4 (drop (length file - 200) file))) :: 32 word)"

section \<open>A reference encoder of the footer\<close>

text \<open>The \<open>n\<close> low bytes of a number, least significant first.\<close>

fun le_bytes :: "nat \<Rightarrow> nat \<Rightarrow> byte list" where
  "le_bytes 0 x = []"
| "le_bytes (Suc n) x = of_nat (x mod 256) # le_bytes n (x div 256)"

text \<open>
  Modelled from the spec: the 32-byte field of a compression-method name, which the
  repository's sources only decode.  The name is ASCII, padded with zero bytes; an absent
  method is the empty name.
\<close>

definition compression_name :: "Compression option \<Rightarrow> byte list" where
  "compression_name c =
     (case c of
        None \<Rightarrow> replicate 32 0
      | Some Zlib \<Rightarrow> [0x5A, 0x6C, 0x69, 0x62] @ replicate 28 0
      | Some Gzip \<Rightarrow> [0x47, 0x7A, 0x69, 0x70] @ replicate 28 0
      | Some Oodle \<Rightarrow> [0x4F, 0x6F, 0x64, 0x6C, 0x65] @ replicate 27 0
      | Some Zstd \<Rightarrow> [0x5A, 0x73, 0x74, 0x64] @ replicate 28 0
      | Some LZ4 \<Rightarrow> [0x4C, 0x5A, 0x34] @ replicate 29 0)"

text \<open>
  Modelled from the spec: the reference encoder of the footer, which is owned by the tests
  and is not among the repository's sources.  It writes the fields in the order in which
  the decoder reads them: the encryption UUID (16 bytes, from \<open>EncryptionKeyGuid\<close> on), the
  encrypted flag (one byte, from \<open>IndexEncryption\<close> on), the magic, the declared version,
  the index offset and size, the 20-byte hash, the frozen flag (one byte, for \<open>FrozenIndex\<close>
  only), and zero, four or five compression names of 32 bytes.
\<close>

definition encode_footer :: "Footer \<Rightarrow> byte list" where
  "encode_footer ft =
     (if major_num (version_to_major (version ft)) \<ge> major_num EncryptionKeyGuid
      then le_bytes 16 (case encryption_uuid ft of None \<Rightarrow> 0 | Some u \<Rightarrow> unat u) else [])
     @ (if major_num (version_to_major (version ft)) \<ge> major_num IndexEncryption
        then [if encrypted ft then 1 else 0] else [])
     @ le_bytes 4 (unat (magic ft))
     @ le_bytes 4 (unat (word_of_int (version_major ft) :: 32 word))
     @ le_bytes 8 (unat (index_offset ft))
     @ le_bytes 8 (unat (index_size ft))
     @ Footer.hash ft
     @ (if version_to_major (version ft) = FrozenIndex
        then [if frozen ft then 1 else 0] else [])
     @ concat (map compression_name
         (take (if version_num (version ft) < version_num V8A then 0
                else if version_num (version ft) < version_num V8B then 4 else 5)
            (compression ft)))"

text \<open>
  The footers that the decoder can produce for a version: the magic and the declared version
  are the expected ones, the optional members are present exactly from their version on, the
  hash has 20 bytes, and the compression list holds four names (\<open>V8A\<close>), five names (\<open>V8B\<close> and
  later) or, before \<open>V8A\<close>, the table that the decoder adds for the older versions.
\<close>

definition footer_wf :: "Footer \<Rightarrow> bool" where
  "footer_wf ft \<longleftrightarrow>
     magic ft = pak_MAGIC
     \<and> version_major ft = major_num (version_to_major (version ft))
     \<and> (encryption_uuid ft \<noteq> None) =
         (major_num (version_to_major (version ft)) \<ge> major_num EncryptionKeyGuid)
     \<and> (encrypted ft \<longrightarrow>
           major_num (version_to_major (version ft)) \<ge> major_num IndexEncryption)
     \<and> (frozen ft \<longrightarrow> version_to_major (version ft) = FrozenIndex)
     \<and> length (Footer.hash ft) = 20
     \<and> (if version_num (version ft) < version_num V8A
         then compression ft = [Some Zlib, Some Gzip, Some Oodle]
         else length (compression ft) =
                (if version_num (version ft) < version_num V8B then 4 else 5))"

text \<open>
  The footer size in the words of the specification, over the order of the versions: 44
  bytes, 16 more from \<open>V7\<close> (\<open>EncryptionKeyGuid\<close>) on, one more from \<open>V4\<close> (\<open>IndexEncryption\<close>) on,
  one more for \<open>V9\<close> (\<open>FrozenIndex\<close>) alone, 128 more from \<open>V8A\<close> on and 32 more from \<open>V8B\<close> on.
\<close>

definition spec_footer_size :: "Version \<Rightarrow> int" where
  "spec_footer_size ver =
     44
     + (if version_num ver \<ge> version_num V7 then 16 else 0)
     + (if version_num ver \<ge> version_num V4 then 1 else 0)
     + (if ver = V9 then 1 else 0)
     + (if version_num ver \<ge> version_num V8A then 128 else 0)
     + (if version_num ver \<ge> version_num V8B then 32 else 0)"

section \<open>Sample PAK files\<close>

text \<open>A machine that grants every request of up to 4 GiB and no larger one.\<close>

definition heap_4GiB :: heap where
  "heap_4GiB n \<longleftrightarrow> n \<le> 4294967296"

text \<open>A footer with all members zero, empty or absent, for the reader to start with.\<close>

definition zero_footer :: Footer where
  "zero_footer =
     \<lparr> encryption_uuid = None, encrypted = False, magic = 0, version = V0, version_major = 0,
       index_offset = 0, index_size = 0, Footer.hash = [], frozen = False, compression = [] \<rparr>"

definition start_state :: Impl where
  "start_state = \<lparr> footer = zero_footer, mount_point = [], entries = [] \<rparr>"

text \<open>
  An entry record of version 9 without compression, 53 bytes: the offset \<open>n\<close>, two sizes, the
  slot 0, the hash, the flags and the block size.
\<close>

definition plain_record :: "byte \<Rightarrow> byte list" where
  "plain_record n =
     [n, 0, 0, 0, 0, 0, 0, 0] @ replicate 16 0 @ [0, 0, 0, 0] @ replicate 20 0 @ [0]
     @ [0, 0, 0, 0]"

definition plain_entry :: "64 word \<Rightarrow> Entry" where
  "plain_entry off =
     \<lparr> offset = off, compressed_size = 0, uncompressed_size = 0, compression_slot = None,
       timestamp = None, Entry.hash = replicate 20 0, blocks = None, flags = 0,
       compression_block_size = 0 \<rparr>"

text \<open>The entry of the sample below that has a compression slot and one block.\<close>

definition blocks_entry :: Entry where
  "blocks_entry =
     \<lparr> offset = 2, compressed_size = 0, uncompressed_size = 0, compression_slot = Some 0,
       timestamp = None, Entry.hash = replicate 20 0,
       blocks = Some [\<lparr> start = 100, end' = 200 \<rparr>], flags = 0,
       compression_block_size = 0 \<rparr>"

text \<open>
  A flat index of 207 bytes: the mount point \<open>""\<close>, the count 3, and the entries \<open>"b"\<close>
  (offset 1), \<open>"/a"\<close> (offset 2, slot 1 on the wire, one block from 100 to 200) and \<open>"b"\<close> again
  (offset 3).
\<close>

definition pak_v9_index :: "byte list" where
  "pak_v9_index =
     [1, 0, 0, 0, 0] @ [3, 0, 0, 0] @
     [2, 0, 0, 0, 0x62, 0] @ plain_record 1 @
     [3, 0, 0, 0, 0x2F, 0x61, 0] @
       ([2, 0, 0, 0, 0, 0, 0, 0] @ replicate 16 0 @ [1, 0, 0, 0] @ replicate 20 0 @
        [1, 0, 0, 0] @ [100, 0, 0, 0, 0, 0, 0, 0] @ [200, 0, 0, 0, 0, 0, 0, 0] @
        [0] @ [0, 0, 0, 0]) @
     [2, 0, 0, 0, 0x62, 0] @ plain_record 3"

text \<open>
  A footer of version 9, 222 bytes: UUID 0, not encrypted, the magic, the declared version
  9, index offset 0, index size 207, a zero hash, not frozen, five empty names.
\<close>

definition pak_v9_footer :: "byte list" where
  "pak_v9_footer =
     replicate 16 0 @ [0] @ [0xE1, 0x12, 0x6F, 0x5A] @ [9, 0, 0, 0] @ replicate 8 0 @
     [207, 0, 0, 0, 0, 0, 0, 0] @ replicate 20 0 @ [0] @ replicate 160 0"

definition pak_v9_sample :: "byte list" where
  "pak_v9_sample = pak_v9_index @ pak_v9_footer"

definition pak_v9_footer_value :: Footer where
  "pak_v9_footer_value =
     \<lparr> encryption_uuid = Some 0, encrypted = False, magic = pak_MAGIC, version = V9,
       version_major = 9, index_offset = 0, index_size = 207, Footer.hash = replicate 20 0,
       frozen = False, compression = [None, None, None, None, None] \<rparr>"

definition pak_v9_model :: Impl where
  "pak_v9_model =
     \<lparr> footer = pak_v9_footer_value, mount_point = [],
       entries = [([0x2F, 0x61], blocks_entry), ([0x62], plain_entry 3)] \<rparr>"

text \<open>
  An index of version 11, 95 bytes: the mount point \<open>""\<close>, the count 1, a path-hash seed, no
  path-hash index, and a full directory index at offset 61 with the one directory \<open>"/"\<close> and
  its two files \<open>"a"\<close> (encoded offset 0) and \<open>"x"\<close> (encoded offset \<open>0x80000000\<close>).
\<close>

definition pak_v11_index :: "byte list" where
  "pak_v11_index =
     [1, 0, 0, 0, 0] @ [1, 0, 0, 0] @ replicate 8 0 @ [0, 0, 0, 0] @ [1, 0, 0, 0] @
     [61, 0, 0, 0, 0, 0, 0, 0] @ [34, 0, 0, 0, 0, 0, 0, 0] @ replicate 20 0 @
     [1, 0, 0, 0] @ [2, 0, 0, 0, 0x2F, 0] @ [2, 0, 0, 0] @
     [2, 0, 0, 0, 0x61, 0] @ [0, 0, 0, 0] @
     [2, 0, 0, 0, 0x78, 0] @ [0, 0, 0, 0x80]"

text \<open>A footer of version 11, 221 bytes, with the given encrypted flag and index size.\<close>

definition pak_v11_footer :: "byte \<Rightarrow> byte \<Rightarrow> byte list" where
  "pak_v11_footer enc isize =
     replicate 16 0 @ [enc] @ [0xE1, 0x12, 0x6F, 0x5A] @ [11, 0, 0, 0] @ replicate 8 0 @
     [isize, 0, 0, 0, 0, 0, 0, 0] @ replicate 20 0 @ replicate 160 0"

definition pak_v11_footer_value :: "bool \<Rightarrow> 64 word \<Rightarrow> Footer" where
  "pak_v11_footer_value enc isize =
     \<lparr> encryption_uuid = Some 0, encrypted = enc, magic = pak_MAGIC, version = V11,
       version_major = 11, index_offset = 0, index_size = isize, Footer.hash = replicate 20 0,
       frozen = False, compression = [None, None, None, None, None] \<rparr>"

definition pak_v11_sample :: "byte list" where
  "pak_v11_sample = pak_v11_index @ pak_v11_footer 0 95"

definition pak_v11_model :: Impl where
  "pak_v11_model =
     \<lparr> footer = pak_v11_footer_value False 95, mount_point = [],
       entries = [([0x61], dummy_entry)] \<rparr>"

text \<open>One byte and a footer of version 11 whose encrypted flag is set: 222 bytes.\<close>

definition pak_encrypted :: "byte list" where
  "pak_encrypted = [0] @ pak_v11_footer 1 0"

text \<open>
  A file of 431 bytes that holds two indexes and two footers, one inside the other.

  The flat index at offset 0, 146 bytes, in the layout of version 9: the mount point \<open>""\<close>, the
  count 2, the entry \<open>"p"\<close> (offset 2, slot 1 on the wire, one block from 100 to 200), and the
  entry \<open>"r"\<close> up to its block count, which is \<open>0xFFFFFFFF\<close>.

  The flat index at offset 146, 63 bytes, in the layout of version 2: the mount point \<open>""\<close>,
  the count 1, and the entry \<open>"q"\<close> (offset 3, no slot).

  The footer of version 9, 222 bytes, with index offset 0.  Its last 44 bytes, the end of its
  compression names, are a footer of version 2 with index offset 146.
\<close>

definition pak_stale_v9_index :: "byte list" where
  "pak_stale_v9_index =
     [1, 0, 0, 0, 0] @ [2, 0, 0, 0] @
     [2, 0, 0, 0, 0x70, 0] @
       ([2, 0, 0, 0, 0, 0, 0, 0] @ replicate 16 0 @ [1, 0, 0, 0] @ replicate 20 0 @
        [1, 0, 0, 0] @ [100, 0, 0, 0, 0, 0, 0, 0] @ [200, 0, 0, 0, 0, 0, 0, 0] @
        [0] @ [0, 0, 0, 0]) @
     [2, 0, 0, 0, 0x72, 0] @
       ([4, 0, 0, 0, 0, 0, 0, 0] @ replicate 16 0 @ [1, 0, 0, 0] @ replicate 20 0 @
        [0xFF, 0xFF, 0xFF, 0xFF])"

definition pak_stale_v2_index :: "byte list" where
  "pak_stale_v2_index =
     [1, 0, 0, 0, 0] @ [1, 0, 0, 0] @
     [2, 0, 0, 0, 0x71, 0] @
       ([3, 0, 0, 0, 0, 0, 0, 0] @ replicate 16 0 @ [0, 0, 0, 0] @ replicate 20 0)"

definition pak_stale_v2_footer :: "byte list" where
  "pak_stale_v2_footer =
     [0xE1, 0x12, 0x6F, 0x5A] @ [2, 0, 0, 0] @ [146, 0, 0, 0, 0, 0, 0, 0] @
     [63, 0, 0, 0, 0, 0, 0, 0] @ replicate 20 0"

definition pak_stale_v9_footer :: "byte list" where
  "pak_stale_v9_footer =
     replicate 16 0 @ [0] @ [0xE1, 0x12, 0x6F, 0x5A] @ [9, 0, 0, 0] @ replicate 8 0 @
     [146, 0, 0, 0, 0, 0, 0, 0] @ replicate 20 0 @ [0] @ replicate 116 0 @ pak_stale_v2_footer"

definition pak_stale :: "byte list" where
  "pak_stale = pak_stale_v9_index @ pak_stale_v2_index @ pak_stale_v9_footer"

definition pak_stale_v9_footer_value :: Footer where
  "pak_stale_v9_footer_value =
     \<lparr> encryption_uuid = Some 0, encrypted = False, magic = pak_MAGIC, version = V9,
       version_major = 9, index_offset = 0, index_size = 146, Footer.hash = replicate 20 0,
       frozen = False, compression = [None, None, None, None, None] \<rparr>"

definition pak_stale_v2_footer_value :: Footer where
  "pak_stale_v2_footer_value =
     \<lparr> encryption_uuid = None, encrypted = False, magic = pak_MAGIC, version = V2,
       version_major = 2, index_offset = 146, index_size = 63, Footer.hash = replicate 20 0,
       frozen = False, compression = [Some Zlib, Some Gzip, Some Oodle] \<rparr>"

definition pak_stale_model :: Impl where
  "pak_stale_model =
     \<lparr> footer = pak_stale_v2_footer_value, mount_point = [],
       entries = [([0x70], blocks_entry), ([0x71], plain_entry 3)] \<rparr>"

text \<open>A footer struct of version 5 with an empty compression list.\<close>

definition pak_v5_footer_value :: Footer where
  "pak_v5_footer_value =
     \<lparr> encryption_uuid = None, encrypted = False, magic = pak_MAGIC, version = V5,
       version_major = 5, index_offset = 0, index_size = 0, Footer.hash = replicate 20 0,
       frozen = False, compression = [] \<rparr>"

chapter \<open>Properties\<close>

section \<open>Chunk metadata records\<close>

lemma read_chunk_meta_offset:
  assumes "read_chunk_meta ver data m off = Some (m', offset')"
  shows "offset' = off + (if ver \<ge> ReplaceIoChunkHashWithIoHash then 25 else 34)"
  using assms
  by (auto simp: read_chunk_meta_def ReadValue_def Let_def split: if_splits option.splits)

lemma read_chunk_metas_offset:
  assumes "read_chunk_metas ver data ms off = Some (ms', offset')"
  shows "offset' = off + length ms * (if ver \<ge> ReplaceIoChunkHashWithIoHash then 25 else 34)"
  using assms
proof (induction ms arbitrary: off ms')
  case Nil
  then show ?case by simp
next
  case (Cons m ms)
  from Cons.prems obtain m1 o1 ms1 where
    one: "read_chunk_meta ver data m off = Some (m1, o1)" and
    rest: "read_chunk_metas ver data ms o1 = Some (ms1, offset')"
    by (auto split: option.splits)
  from Cons.IH [OF rest] read_chunk_meta_offset [OF one]
  show ?case by (simp split: if_splits)
qed

text \<open>
  C2.  A chunk-metadata record of the newer shape is 24 bytes in the file (20-byte hash, 1 flag
  byte, 3 pad bytes), one of the older shape 33 bytes (32-byte hash, 1 flag byte).  On a
  buffer that holds exactly one record of the newer shape the decoder advances the cursor
  by 25, and on one record of the older shape by 34: one byte more than the record in both
  shapes, because the off is advanced by the flag read and then again for the flag.
\<close>

theorem chunk_meta_cursor_overshoots:
  "read_chunk_metas ReplaceIoChunkHashWithIoHash (replicate 20 0xAA @ [1, 0, 0, 0]) [empty_meta] 0
     = Some ([\<lparr> chunk_hash = replicate 20 0xAA @ replicate 12 0,
                FIoStoreTocEntryMeta.flags = 1 \<rparr>], 25)
   \<and> read_chunk_metas PerfectHash (replicate 32 0xBB @ [1]) [empty_meta] 0
     = Some ([\<lparr> chunk_hash = replicate 32 0xBB, FIoStoreTocEntryMeta.flags = 1 \<rparr>], 34)"
  by (simp add: read_chunk_meta_def read_bytes_def ReadValue_def empty_meta_def
      ReplaceIoChunkHashWithIoHash_def PerfectHash_def)

section \<open>Engine strings of negative length\<close>

lemma read_utf16_numeral:
  "read_utf16 data off (numeral k) =
     (case ReadValue_char16 data off of
        None \<Rightarrow> None
      | Some (c, offset') \<Rightarrow>
          if c = 0 then Some ([], offset')
          else (case read_utf16 data offset' (pred_numeral k) of
                  None \<Rightarrow> None
                | Some (cs, offset'') \<Rightarrow> Some (c # cs, offset'')))"
  by (simp add: numeral_eq_Suc)

lemma read_utf16_offset:
  assumes "read_utf16 data off n = Some (cs, offset')"
  shows "(length cs = n \<and> offset' = off + 2 * n)
       \<or> (length cs < n \<and> offset' = off + 2 * (length cs + 1))"
  using assms
proof (induction n arbitrary: off cs)
  case 0
  then show ?case by simp
next
  case (Suc n)
  from Suc.prems obtain c o1 where
    rd: "ReadValue_char16 data off = Some (c, o1)"
    by (auto split: option.splits)
  then have o1: "o1 = off + 2"
    by (auto simp: ReadValue_def Let_def split: if_splits)
  show ?case
  proof (cases "c = 0")
    case True
    with Suc.prems rd o1 show ?thesis by auto
  next
    case False
    with Suc.prems rd obtain cs1 where
      rest: "read_utf16 data o1 n = Some (cs1, offset')" and cs: "cs = c # cs1"
      by (auto split: option.splits)
    from Suc.IH [OF rest] o1 cs show ?thesis by auto
  qed
qed

text \<open>
  What the UTOC string reader consumes for a negative length \<open>L\<close>: \<open>4 + 2 * |L|\<close> bytes when
  no code unit is zero, and two bytes more when one is.
\<close>

lemma ReadString_utf16_offset:
  assumes "ReadValue_uint32 data off = Some (l, offset1)"
    and "sint l < 0"
    and "ReadString data off = Some (s, offset')"
  shows "offset' = off + 4 + 2 * nat (- sint l)
       \<or> offset' = off + 4 + 2 * nat (- sint l) + 2"
proof -
  from assms(1) have o1: "offset1 = off + 4"
    by (auto simp: ReadValue_def Let_def split: if_splits)
  from assms obtain utf16 offset2 where
    loop: "read_utf16 data offset1 (nat (- sint l)) = Some (utf16, offset2)" and
    fin: "offset' = (if length utf16 < nat (- sint l)
                     then offset2 + (nat (- sint l) - length utf16) * 2 else offset2)"
    by (auto simp: ReadString_def Let_def split: if_splits option.splits)
  from read_utf16_offset [OF loop] fin o1 show ?thesis
    by auto
qed

text \<open>The PAK string reader consumes \<open>4 + 2 * |L|\<close> bytes in every case.\<close>

lemma read_string_utf16_pos:
  assumes "stream_read file pos 4 = Some (lb, pos1)"
    and "sint (of_nat (le_nat lb) :: 32 word) < 0"
    and "read_string heap file pos = Done (s, pos')"
  shows "pos' = pos + 4 + 2 * nat (- sint (of_nat (le_nat lb) :: 32 word))"
  using assms
  by (auto simp: read_string_def then_read_def stream_read_def Let_def
      split: if_splits option.splits)

text \<open>
  C3.  A string of declared length \<open>-3\<close> whose code units are \<open>'a'\<close>, zero, \<open>'x'\<close> occupies
  \<open>4 + 2 * 3 = 10\<close> bytes.  The PAK string reader yields \<open>"a"\<close> and stops at position 10.  The
  UTOC string reader yields \<open>"a"\<close> too but leaves its cursor at 12: the zero code unit is
  consumed by the loop and then skipped once more.
\<close>

theorem utoc_ReadString_skips_past_the_code_units:
  "ReadString [0xFD, 0xFF, 0xFF, 0xFF, 0x61, 0, 0, 0, 0x78, 0] 0 = Some ([0x61], 12)
   \<and> read_string heap_4GiB [0xFD, 0xFF, 0xFF, 0xFF, 0x61, 0, 0, 0, 0x78, 0] 0
       = Done ([0x61], 10)"
  by (simp add: ReadString_def read_string_def then_read_def heap_4GiB_def ReadValue_def
      stream_read_def utf8_of_def read_utf16_numeral)

section \<open>What UTOC open validates\<close>

lemma le_nat_replicate_zero [simp]: "le_nat (replicate n 0) = 0"
  by (induction n) simp_all

lemma length_utoc_header_bytes [simp]:
  "length (utoc_header_bytes ver hsize n dirsize cflags) = 144"
  by (simp add: utoc_header_bytes_def MAGIC_def)

lemma parse_header_bytes:
  "parse_header (utoc_header_bytes ver hsize n dirsize cflags) =
     \<lparr> toc_magic = MAGIC, version = ver, reserved0 = 0, reserved1 = 0,
       toc_header_size = ucast hsize, toc_entry_count = ucast n,
       toc_compressed_block_entry_count = 0, toc_compressed_block_entry_size = 0,
       compression_method_name_count = 0, compression_method_name_length = 0,
       compression_block_size = 0, directory_index_size = ucast dirsize,
       partition_count = 0, container_id = 0, encryption_key_guid = replicate 16 0,
       container_flags = cflags, reserved3 = 0, reserved4 = 0,
       toc_chunk_perfect_hash_seeds_count = 0, partition_size = 0,
       toc_chunks_without_perfect_hash_count = 0, reserved7 = 0,
       reserved8 = replicate 40 0 \<rparr>"
  by (simp add: parse_header_def field_def utoc_header_bytes_def MAGIC_def)

lemmas Open_eval =
  Open_def Let_def read_bytes_def parse_header_bytes IsValid_def read_records_def
  read_int32s_def read_hash_map_def skip_signatures_def read_directory_index_def
  PerfectHashWithOverflow_def PerfectHash_def ReplaceIoChunkHashWithIoHash_def
  IsEncrypted_def IsSigned_def IsIndexed_def Encrypted_def Signed_def Indexed_def resize_def

lemma Open_utoc_unversioned:
  "Open (Some utoc_unversioned) fresh_reader =
     Some (True, fresh_reader\<lparr> header := parse_header utoc_unversioned \<rparr>)"
  by (simp add: Open_eval fresh_reader_def utoc_unversioned_def)

lemma Open_utoc_encrypted:
  "Open (Some utoc_encrypted) fresh_reader =
     Some (False, fresh_reader\<lparr> header := parse_header (utoc_header_bytes 8 144 1 0 2),
                               chunk_ids := [replicate 12 7],
                               chunk_offset_lengths := [replicate 10 9] \<rparr>)"
  by (simp add: Open_eval fresh_reader_def utoc_encrypted_def)

lemma Open_utoc_dangling:
  "Open (Some utoc_dangling) fresh_reader =
     Some (True, fresh_reader\<lparr> header := parse_header (utoc_header_bytes 8 144 0 32 8),
                              directory_index := dangling_index \<rparr>)"
  by (simp add: Open_eval fresh_reader_def utoc_dangling_def ParseDirectoryIndex_def
      ReadString_def ReadValue_def ReadOptional_def dangling_index_def)

lemma Open_utoc_one_file:
  "Open (Some utoc_one_file) fresh_reader =
     Some (True, fresh_reader\<lparr> header := parse_header (utoc_header_bytes 8 144 0 50 8),
                              directory_index := one_file_index,
                              file_map := [0 \<mapsto> []] \<rparr>)"
  by (simp add: Open_eval fresh_reader_def utoc_one_file_def ParseDirectoryIndex_def
      ReadString_def ReadValue_def ReadOptional_def one_file_index_def)

lemma ParseDirectoryIndex_true:
  "ParseDirectoryIndex data r = Some (ok, r') \<Longrightarrow> ok"
  by (auto simp: ParseDirectoryIndex_def split: bind_splits prod.splits)

lemma read_bytes_header:
  "read_bytes fileData 0 144 = Some hb \<Longrightarrow> hb = take 144 fileData"
  by (auto simp: read_bytes_def split: if_splits)

lemma Open_true_magic:
  assumes "Open (Some fileData) r = Some (True, r')"
  shows "take 16 fileData = MAGIC"
proof -
  from assms obtain hb where hb: "read_bytes fileData 0 144 = Some hb"
    by (auto simp: Open_def split: bind_splits)
  have "IsValid (parse_header hb)"
  proof (rule ccontr)
    assume "\<not> IsValid (parse_header hb)"
    with assms hb show False by (simp add: Open_def Let_def)
  qed
  with read_bytes_header [OF hb] show ?thesis
    by (simp add: IsValid_def parse_header_def)
qed

lemma Open_bad_magic:
  assumes "144 \<le> length fileData" and "take 16 fileData \<noteq> MAGIC"
  shows "Open (Some fileData) r = Some (False, r\<lparr> header := parse_header (take 144 fileData) \<rparr>)"
  using assms by (simp add: Open_def Let_def read_bytes_def IsValid_def parse_header_def)

text \<open>
  C4, as stated: UTOC open rejects a file whose declared header size is not 144 or whose
  version is \<open>Invalid\<close>.  It does not: a header with the magic, declared size 0 and version
  \<open>Invalid\<close> is opened.
\<close>

theorem Open_accepts_invalid_version_and_size:
  "Open (Some utoc_unversioned) fresh_reader =
     Some (True, fresh_reader\<lparr> header := parse_header utoc_unversioned \<rparr>)
   \<and> toc_header_size (parse_header utoc_unversioned) = 0
   \<and> FIoStoreTocHeader.version (parse_header utoc_unversioned) = Invalid"
  using Open_utoc_unversioned
  by (simp add: utoc_unversioned_def parse_header_bytes Invalid_def)

text \<open>
  C4, amended: UTOC open validates the magic and nothing else of the header.  Every file that
  is opened starts with the 16-byte magic, and every file of at least 144 bytes that does not
  start with it is rejected, the reader keeping the header that was copied from the file.
\<close>

theorem Open_validates_magic_only:
  "(Open (Some fileData) r = Some (True, r') \<longrightarrow> take 16 fileData = MAGIC)
   \<and> (144 \<le> length fileData \<and> take 16 fileData \<noteq> MAGIC \<longrightarrow>
        Open (Some fileData) r = Some (False, r\<lparr> header := parse_header (take 144 fileData) \<rparr>))"
  using Open_true_magic Open_bad_magic by blast

theorem Open_validates_magic_only_witness:
  "Open (Some utoc_unversioned) fresh_reader =
     Some (True, fresh_reader\<lparr> header := parse_header utoc_unversioned \<rparr>)
   \<and> take 16 utoc_unversioned = MAGIC
   \<and> 144 \<le> length utoc_bad_magic \<and> take 16 utoc_bad_magic \<noteq> MAGIC
   \<and> Open (Some utoc_bad_magic) fresh_reader =
       Some (False, fresh_reader\<lparr> header := parse_header (take 144 utoc_bad_magic) \<rparr>)"
proof -
  have "hd (take 16 utoc_bad_magic) \<noteq> hd MAGIC"
    by (simp add: utoc_bad_magic_def MAGIC_def)
  then have "take 16 utoc_bad_magic \<noteq> MAGIC"
    by metis
  then have bad: "144 \<le> length utoc_bad_magic \<and> take 16 utoc_bad_magic \<noteq> MAGIC"
    by (simp add: utoc_bad_magic_def)
  from Open_validates_magic_only [of utoc_unversioned fresh_reader
      "fresh_reader\<lparr> header := parse_header utoc_unversioned \<rparr>"]
    Open_validates_magic_only [of utoc_bad_magic fresh_reader] Open_utoc_unversioned bad
  show ?thesis by blast
qed

section \<open>The reader after a failed open\<close>

lemma read_directory_index_true:
  "read_directory_index h fileData r off = Some (ok, r', offset') \<Longrightarrow> ok"
  by (auto simp: read_directory_index_def dest: ParseDirectoryIndex_true
      split: if_splits bind_splits)

lemma PerfectHash_le_overflow: "(5 :: byte) \<le> v \<Longrightarrow> 4 \<le> v"
  using order_trans [of "4 :: byte" 5 v] by simp

lemma read_hash_map_result:
  assumes "read_hash_map h fileData r off = Some (r', offset')"
  shows "header r' = header r \<and> chunk_ids r' = chunk_ids r
       \<and> chunk_offset_lengths r' = chunk_offset_lengths r
       \<and> compression_blocks r' = compression_blocks r
       \<and> compression_methods r' = compression_methods r
       \<and> chunk_metas r' = chunk_metas r
       \<and> directory_index r' = directory_index r \<and> file_map r' = file_map r
       \<and> (if FIoStoreTocHeader.version h \<ge> PerfectHash
          then read_int32s fileData off (unat (toc_chunk_perfect_hash_seeds_count h))
               = Some (chunk_perfect_hash_seeds r')
          else chunk_perfect_hash_seeds r' = chunk_perfect_hash_seeds r)
       \<and> (if FIoStoreTocHeader.version h \<ge> PerfectHashWithOverflow
          then read_int32s fileData (off + unat (toc_chunk_perfect_hash_seeds_count h) * 4)
                 (unat (toc_chunks_without_perfect_hash_count h))
               = Some (chunk_indices_without_perfect_hash r')
          else chunk_indices_without_perfect_hash r' = chunk_indices_without_perfect_hash r)
       \<and> offset' = off
           + (if FIoStoreTocHeader.version h \<ge> PerfectHash
              then unat (toc_chunk_perfect_hash_seeds_count h) * 4 else 0)
           + (if FIoStoreTocHeader.version h \<ge> PerfectHashWithOverflow
              then unat (toc_chunks_without_perfect_hash_count h) * 4 else 0)"
  using assms
  by (auto simp: read_hash_map_def Let_def PerfectHash_def PerfectHashWithOverflow_def
      dest: PerfectHash_le_overflow split: if_splits bind_splits)

lemma Open_false_cases:
  assumes "Open (Some fileData) r = Some (False, r')"
  shows "(\<not> IsValid (parse_header (take 144 fileData))
          \<and> r' = r\<lparr> header := parse_header (take 144 fileData) \<rparr>)
       \<or> (IsValid (parse_header (take 144 fileData))
          \<and> IsEncrypted (parse_header (take 144 fileData))
          \<and> (\<exists>ids ols r1 off1 bl ms off2.
                read_records fileData 144
                  (unat (toc_entry_count (parse_header (take 144 fileData)))) 12 = Some ids
              \<and> read_records fileData
                  (144 + unat (toc_entry_count (parse_header (take 144 fileData))) * 12)
                  (unat (toc_entry_count (parse_header (take 144 fileData)))) 10 = Some ols
              \<and> read_hash_map (parse_header (take 144 fileData)) fileData
                  (r\<lparr> header := parse_header (take 144 fileData), chunk_ids := ids,
                      chunk_offset_lengths := ols \<rparr>)
                  (hash_map_offset (parse_header (take 144 fileData))) = Some (r1, off1)
              \<and> read_records fileData off1
                  (unat (toc_compressed_block_entry_count (parse_header (take 144 fileData))))
                  12 = Some bl
              \<and> read_method_names fileData
                  (off1 + unat (toc_compressed_block_entry_count
                                  (parse_header (take 144 fileData))) * 12)
                  (unat (compression_method_name_length (parse_header (take 144 fileData))))
                  (unat (compression_method_name_count (parse_header (take 144 fileData))))
                  = Some (ms, off2)
              \<and> r' = r1\<lparr> compression_blocks := bl, compression_methods := ms \<rparr>))"
proof -
  from assms obtain hb where hb: "read_bytes fileData 0 144 = Some hb"
    by (auto simp: Open_def split: bind_splits)
  note hb' = read_bytes_header [OF hb]
  show ?thesis
  proof (cases "IsValid (parse_header hb)")
    case False
    with assms hb hb' show ?thesis by (auto simp add: Open_def Let_def)
  next
    case True
    show ?thesis
    proof (cases "IsEncrypted (parse_header hb)")
      case enc: True
      with assms hb hb' True show ?thesis
        by (auto simp add: Open_def Let_def hash_map_offset_def split: bind_splits)
    next
      case noenc: False
      with assms hb hb' True show ?thesis
        by (auto simp add: Open_def Let_def dest!: read_directory_index_true
            split: bind_splits if_splits)
    qed
  qed
qed

text \<open>
  C9, as stated: a failed \<^verbatim>\<open>UtocReader::Open\<close> leaves the reader as it was before the call.
  On a file with the Encrypted container flag the call fails and the reader holds the file's
  header, chunk ids and offsets.
\<close>

theorem failed_Open_changes_reader:
  "Open (Some utoc_encrypted) fresh_reader =
     Some (False, fresh_reader\<lparr> header := parse_header (utoc_header_bytes 8 144 1 0 2),
                               chunk_ids := [replicate 12 7],
                               chunk_offset_lengths := [replicate 10 9] \<rparr>)
   \<and> fresh_reader\<lparr> header := parse_header (utoc_header_bytes 8 144 1 0 2),
                     chunk_ids := [replicate 12 7],
                     chunk_offset_lengths := [replicate 10 9] \<rparr> \<noteq> fresh_reader"
proof -
  have "chunk_ids (fresh_reader\<lparr> header := parse_header (utoc_header_bytes 8 144 1 0 2),
                     chunk_ids := [replicate 12 7],
                     chunk_offset_lengths := [replicate 10 9] \<rparr>) \<noteq> chunk_ids fresh_reader"
    by (simp add: fresh_reader_def)
  then have "fresh_reader\<lparr> header := parse_header (utoc_header_bytes 8 144 1 0 2),
                     chunk_ids := [replicate 12 7],
                     chunk_offset_lengths := [replicate 10 9] \<rparr> \<noteq> fresh_reader"
    by metis
  with Open_utoc_encrypted show ?thesis by simp
qed

text \<open>
  C9, amended: \<^verbatim>\<open>UtocReader::Open\<close> restores nothing.  When the file cannot be opened the
  reader is unchanged.  When the call returns false after the file was read, the reader's
  header is the first 144 bytes of the file, and its chunk metadata, directory index and
  file map are those from before the call.  On a bad magic nothing else has changed.
  Otherwise the container is flagged as encrypted, and the members assigned before that
  check hold what was decoded from the file: the chunk ids, the offsets and lengths, the
  hash seeds and the overflow indices where the version has them, the compressed blocks and
  the names of the compression methods.
\<close>

theorem failed_Open_state:
  "Open None r = Some (False, r)
   \<and> (Open (Some fileData) r = Some (False, r') \<longrightarrow>
        (let h = parse_header (take 144 fileData); n = unat (toc_entry_count h) in
         header r' = h \<and> chunk_metas r' = chunk_metas r
         \<and> directory_index r' = directory_index r \<and> file_map r' = file_map r
         \<and> (if \<not> IsValid h then r' = r\<lparr> header := h \<rparr>
            else
              IsEncrypted h
              \<and> read_records fileData 144 n 12 = Some (chunk_ids r')
              \<and> read_records fileData (144 + n * 12) n 10 = Some (chunk_offset_lengths r')
              \<and> (if FIoStoreTocHeader.version h \<ge> PerfectHash
                 then read_int32s fileData (hash_map_offset h)
                        (unat (toc_chunk_perfect_hash_seeds_count h))
                      = Some (chunk_perfect_hash_seeds r')
                 else chunk_perfect_hash_seeds r' = chunk_perfect_hash_seeds r)
              \<and> (if FIoStoreTocHeader.version h \<ge> PerfectHashWithOverflow
                 then read_int32s fileData
                        (hash_map_offset h + unat (toc_chunk_perfect_hash_seeds_count h) * 4)
                        (unat (toc_chunks_without_perfect_hash_count h))
                      = Some (chunk_indices_without_perfect_hash r')
                 else chunk_indices_without_perfect_hash r'
                      = chunk_indices_without_perfect_hash r)
              \<and> read_records fileData (compressed_blocks_offset h)
                   (unat (toc_compressed_block_entry_count h)) 12
                 = Some (compression_blocks r')
              \<and> map_option fst
                   (read_method_names fileData (method_names_offset h)
                      (unat (compression_method_name_length h))
                      (unat (compression_method_name_count h)))
                 = Some (compression_methods r'))))"
proof (intro conjI impI)
  show "Open None r = Some (False, r)"
    by (simp add: Open_def)
next
  assume "Open (Some fileData) r = Some (False, r')"
  from Open_false_cases [OF this] show
    "let h = parse_header (take 144 fileData); n = unat (toc_entry_count h) in
         header r' = h \<and> chunk_metas r' = chunk_metas r
         \<and> directory_index r' = directory_index r \<and> file_map r' = file_map r
         \<and> (if \<not> IsValid h then r' = r\<lparr> header := h \<rparr>
            else
              IsEncrypted h
              \<and> read_records fileData 144 n 12 = Some (chunk_ids r')
              \<and> read_records fileData (144 + n * 12) n 10 = Some (chunk_offset_lengths r')
              \<and> (if FIoStoreTocHeader.version h \<ge> PerfectHash
                 then read_int32s fileData (hash_map_offset h)
                        (unat (toc_chunk_perfect_hash_seeds_count h))
                      = Some (chunk_perfect_hash_seeds r')
                 else chunk_perfect_hash_seeds r' = chunk_perfect_hash_seeds r)
              \<and> (if FIoStoreTocHeader.version h \<ge> PerfectHashWithOverflow
                 then read_int32s fileData
                        (hash_map_offset h + unat (toc_chunk_perfect_hash_seeds_count h) * 4)
                        (unat (toc_chunks_without_perfect_hash_count h))
                      = Some (chunk_indices_without_perfect_hash r')
                 else chunk_indices_without_perfect_hash r'
                      = chunk_indices_without_perfect_hash r)
              \<and> read_records fileData (compressed_blocks_offset h)
                   (unat (toc_compressed_block_entry_count h)) 12
                 = Some (compression_blocks r')
              \<and> map_option fst
                   (read_method_names fileData (method_names_offset h)
                      (unat (compression_method_name_length h))
                      (unat (compression_method_name_count h)))
                 = Some (compression_methods r'))"
  proof (elim disjE conjE exE)
    assume "\<not> IsValid (parse_header (take 144 fileData))"
      and "r' = r\<lparr> header := parse_header (take 144 fileData) \<rparr>"
    then show ?thesis by (simp add: Let_def)
  next
    fix ids ols r1 off1 bl ms off2
    let ?h = "parse_header (take 144 fileData)"
    assume v: "IsValid ?h" and e: "IsEncrypted ?h"
      and ids: "read_records fileData 144 (unat (toc_entry_count ?h)) 12 = Some ids"
      and ols: "read_records fileData (144 + unat (toc_entry_count ?h) * 12)
                  (unat (toc_entry_count ?h)) 10 = Some ols"
      and hm: "read_hash_map ?h fileData
                  (r\<lparr> header := ?h, chunk_ids := ids, chunk_offset_lengths := ols \<rparr>)
                  (hash_map_offset ?h) = Some (r1, off1)"
      and bl: "read_records fileData off1 (unat (toc_compressed_block_entry_count ?h)) 12
                = Some bl"
      and ms: "read_method_names fileData
                  (off1 + unat (toc_compressed_block_entry_count ?h) * 12)
                  (unat (compression_method_name_length ?h))
                  (unat (compression_method_name_count ?h)) = Some (ms, off2)"
      and r': "r' = r1\<lparr> compression_blocks := bl, compression_methods := ms \<rparr>"
    note res = read_hash_map_result [OF hm]
    from res have off1: "off1 = compressed_blocks_offset ?h"
      by (simp add: compressed_blocks_offset_def)
    from res v e ids ols bl ms r' off1 show ?thesis
      by (simp add: Let_def method_names_offset_def split: if_splits)
  qed
qed

theorem failed_Open_state_witness:
  "Open None fresh_reader = Some (False, fresh_reader)
   \<and> Open (Some utoc_encrypted) fresh_reader =
       Some (False, fresh_reader\<lparr> header := parse_header (utoc_header_bytes 8 144 1 0 2),
                                 chunk_ids := [replicate 12 7],
                                 chunk_offset_lengths := [replicate 10 9] \<rparr>)
   \<and> parse_header (utoc_header_bytes 8 144 1 0 2) = parse_header (take 144 utoc_encrypted)
   \<and> IsValid (parse_header (take 144 utoc_encrypted))
   \<and> IsEncrypted (parse_header (take 144 utoc_encrypted))
   \<and> read_records utoc_encrypted 144 1 12 = Some [replicate 12 7]
   \<and> read_records utoc_encrypted 156 1 10 = Some [replicate 10 9]"
proof -
  let ?r' = "fresh_reader\<lparr> header := parse_header (utoc_header_bytes 8 144 1 0 2),
                          chunk_ids := [replicate 12 7],
                          chunk_offset_lengths := [replicate 10 9] \<rparr>"
  have h: "parse_header (take 144 utoc_encrypted) = parse_header (utoc_header_bytes 8 144 1 0 2)"
    by (simp add: utoc_encrypted_def)
  have n: "unat (toc_entry_count (parse_header (utoc_header_bytes 8 144 1 0 2))) = 1"
    by (simp add: parse_header_bytes)
  have v: "IsValid (parse_header (utoc_header_bytes 8 144 1 0 2))"
    by (simp add: parse_header_bytes IsValid_def)
  from failed_Open_state [of fresh_reader utoc_encrypted ?r'] Open_utoc_encrypted h n v
  show ?thesis
    by (simp add: Let_def)
qed

section \<open>Indices of the directory index\<close>

lemma file_entry_bounds:
  assumes "indices_in_bounds idx" and "i < length (file_entries idx)"
  shows "unat (FIoFileIndexEntry.name (file_entries idx ! i)) < length (string_table idx)"
    and "opt_below (next_file_entry (file_entries idx ! i)) (length (file_entries idx))"
  using assms
  by (auto simp: indices_in_bounds_def list_all_length file_entry_in_bounds_def)

lemma dir_entry_bounds:
  assumes "indices_in_bounds idx" and "i < length (directory_entries idx)"
  shows "dir_entry_in_bounds idx (directory_entries idx ! i)"
  using assms by (auto simp: indices_in_bounds_def list_all_length)

lemma walk_files_in_bounds:
  assumes "indices_in_bounds idx" and "opt_below fi (length (file_entries idx))"
  shows "walk_files fuel idx fi path result \<noteq> OutOfRange"
  using assms(2)
proof (induction fuel arbitrary: fi result)
  case 0
  then show ?case by (cases fi) simp_all
next
  case (Suc fuel)
  show ?case
  proof (cases fi)
    case None
    then show ?thesis by simp
  next
    case (Some i)
    with Suc.prems have i: "unat i < length (file_entries idx)"
      by (simp add: opt_below_def)
    from file_entry_bounds [OF assms(1) i] Suc.IH Some i show ?thesis
      by (simp add: Let_def)
  qed
qed

lemma traverse_in_bounds:
  assumes "indices_in_bounds idx"
  shows "(unat d < length (directory_entries idx) \<longrightarrow>
            traverseDirectory fuel idx d path result \<noteq> OutOfRange)
       \<and> (opt_below c (length (directory_entries idx)) \<longrightarrow>
            walk_children fuel idx c path result \<noteq> OutOfRange)"
proof (induction fuel arbitrary: d c path result)
  case 0
  show ?case by (cases c) simp_all
next
  case (Suc fuel)
  have dir: "traverseDirectory (Suc fuel) idx d path result \<noteq> OutOfRange"
    if d: "unat d < length (directory_entries idx)"
  proof -
    from dir_entry_bounds [OF assms d]
    have b: "dir_entry_in_bounds idx (directory_entries idx ! unat d)" .
    let ?dir = "directory_entries idx ! unat d"
    let ?path = "case FIoDirectoryIndexEntry.name ?dir of None \<Rightarrow> path
                 | Some n \<Rightarrow> path @ [string_table idx ! unat n]"
    from b have nm: "\<not> (case FIoDirectoryIndexEntry.name ?dir of None \<Rightarrow> False
                         | Some n \<Rightarrow> length (string_table idx) \<le> unat n)"
      by (auto simp: dir_entry_in_bounds_def opt_below_def split: option.splits)
    from b have ff: "opt_below (first_file_entry ?dir) (length (file_entries idx))"
      and fc: "opt_below (first_child_entry ?dir) (length (directory_entries idx))"
      by (simp_all add: dir_entry_in_bounds_def)
    from walk_files_in_bounds [OF assms ff]
    have wf: "walk_files fuel idx (first_file_entry ?dir) ?path result \<noteq> OutOfRange" .
    from Suc.IH fc
    have wc: "walk_children fuel idx (first_child_entry ?dir) ?path r \<noteq> OutOfRange" for r
      by blast
    from d nm wf wc show ?thesis
      by (simp add: Let_def split: traversal.splits)
  qed
  have kids: "walk_children (Suc fuel) idx c path result \<noteq> OutOfRange"
    if c: "opt_below c (length (directory_entries idx))"
  proof (cases c)
    case None
    then show ?thesis by simp
  next
    case (Some i)
    with c have i: "unat i < length (directory_entries idx)"
      by (simp add: opt_below_def)
    from dir_entry_bounds [OF assms i]
    have sib: "opt_below (next_sibling_entry (directory_entries idx ! unat i))
                 (length (directory_entries idx))"
      by (simp add: dir_entry_in_bounds_def)
    from Suc.IH i have t: "traverseDirectory fuel idx i path result \<noteq> OutOfRange"
      by blast
    from Suc.IH sib
    have w: "walk_children fuel idx (next_sibling_entry (directory_entries idx ! unat i))
               path r \<noteq> OutOfRange" for r
      by blast
    from Some i t w show ?thesis
      by (simp split: traversal.splits)
  qed
  from dir kids show ?case by blast
qed

lemma GetAllFilePaths_not_OutOfRange:
  assumes "indices_in_bounds idx"
  shows "GetAllFilePaths fuel idx \<noteq> OutOfRange"
proof (cases "directory_entries idx = []")
  case True
  then show ?thesis by (simp add: GetAllFilePaths_def)
next
  case False
  then have "unat (0 :: 32 word) < length (directory_entries idx)" by simp
  with traverse_in_bounds [OF assms, of 0 fuel] False show ?thesis
    by (simp add: GetAllFilePaths_def)
qed

text \<open>
  C8, as stated: after a successful open every index that \<^verbatim>\<open>GetAllFilePaths\<close> follows is
  inside its vector.  The file \<open>utoc_dangling\<close> is opened, its root directory names file
  entry 5 of an empty file vector, and the enumeration indexes outside the vector.
\<close>

theorem Open_accepts_dangling_file_index:
  "Open (Some utoc_dangling) fresh_reader =
     Some (True, fresh_reader\<lparr> header := parse_header (utoc_header_bytes 8 144 0 32 8),
                              directory_index := dangling_index \<rparr>)
   \<and> GetAllFilePaths 2 dangling_index = OutOfRange"
  using Open_utoc_dangling
  by (simp add: GetAllFilePaths_def numeral_2_eq_2 dangling_index_def)

text \<open>
  C8, amended: open stores the indices of the directory index as they are in the file,
  without comparing them with the sizes of the vectors.  For an opened UTOC whose stored
  indices are all inside the vector they refer to, \<^verbatim>\<open>GetAllFilePaths\<close> never indexes out of
  range, however far the walk goes.
\<close>

theorem GetAllFilePaths_in_bounds:
  assumes "Open file r = Some (True, r')"
    and "indices_in_bounds (directory_index r')"
  shows "GetAllFilePaths fuel (directory_index r') \<noteq> OutOfRange"
  using assms(2) by (rule GetAllFilePaths_not_OutOfRange)

theorem GetAllFilePaths_in_bounds_witness:
  "Open (Some utoc_one_file) fresh_reader =
     Some (True, fresh_reader\<lparr> header := parse_header (utoc_header_bytes 8 144 0 50 8),
                              directory_index := one_file_index,
                              file_map := [0 \<mapsto> []] \<rparr>)
   \<and> indices_in_bounds one_file_index
   \<and> GetAllFilePaths 3 one_file_index = Paths [[0x61]]
   \<and> GetAllFilePaths 3 one_file_index \<noteq> OutOfRange"
proof -
  have b: "indices_in_bounds one_file_index"
    by (simp add: indices_in_bounds_def one_file_index_def dir_entry_in_bounds_def
        file_entry_in_bounds_def opt_below_def)
  have p: "GetAllFilePaths 3 one_file_index = Paths [[0x61]]"
    by (simp add: GetAllFilePaths_def numeral_3_eq_3 one_file_index_def full_path_def
        add_segment_def)
  from GetAllFilePaths_in_bounds [OF Open_utoc_one_file, of 3] b p Open_utoc_one_file
  show ?thesis by simp
qed

section \<open>The PAK reader on the sample files\<close>

lemma le_nat_zeros_append [simp]: "le_nat (replicate n 0 @ bs) = 256 ^ n * le_nat bs"
  by (induction n) simp_all

lemma read_compression_names_numeral:
  "read_compression_names file pos (numeral k) =
     (case stream_read file pos 32 of
        None \<Rightarrow> None
      | Some (nm, pos') \<Rightarrow>
         (case read_compression_names file pos' (pred_numeral k) of
            None \<Rightarrow> None
          | Some (cs, pos'') \<Rightarrow> Some (compression_of_name nm # cs, pos'')))"
  by (simp add: numeral_eq_Suc)

lemma read_entries_numeral:
  "read_entries heap file ft (numeral k) es pos =
     (case read_string heap file pos of
        Short \<Rightarrow> Short
      | Raised e u \<Rightarrow> Raised e es
      | Done (path, pos1) \<Rightarrow>
         (case read_entry heap ft file pos1 of
            Short \<Rightarrow> Short
          | Raised e u \<Rightarrow> Raised e es
          | Done (entry, pos2) \<Rightarrow>
              read_entries heap file ft (pred_numeral k) (map_assign path entry es) pos2))"
  by (simp add: numeral_eq_Suc)

lemma listed_entries_numeral:
  "listed_entries heap file ft (numeral k) pos =
     (case read_string heap file pos of
        Done (path, pos1) \<Rightarrow>
         (case read_entry heap ft file pos1 of
            Done (entry, pos2) \<Rightarrow>
             (case listed_entries heap file ft (pred_numeral k) pos2 of
                None \<Rightarrow> None
              | Some (ps, pos3) \<Rightarrow> Some ((path, entry) # ps, pos3))
          | _ \<Rightarrow> None)
      | _ \<Rightarrow> None)"
  by (simp add: numeral_eq_Suc)

lemma read_blocks_numeral:
  "read_blocks file pos (numeral k) =
     (case read_u64 file pos of
        None \<Rightarrow> None
      | Some (s, pos1) \<Rightarrow>
         (case read_u64 file pos1 of
            None \<Rightarrow> None
          | Some (e, pos2) \<Rightarrow>
             (case read_blocks file pos2 (pred_numeral k) of
                None \<Rightarrow> None
              | Some (bs, pos3) \<Rightarrow> Some (\<lparr> start = s, end' = e \<rparr> # bs, pos3))))"
  by (simp add: numeral_eq_Suc)

lemma read_directories_numeral:
  "read_directories heap file (numeral k) es pos =
     (case read_string heap file pos of
        Short \<Rightarrow> Short
      | Raised e u \<Rightarrow> Raised e es
      | Done (dir_name, pos1) \<Rightarrow>
         (case read_u32 file pos1 of
            None \<Rightarrow> Short
          | Some (file_count, pos2) \<Rightarrow>
             (case read_directory_files heap file dir_name (unat file_count) es pos2 of
                Short \<Rightarrow> Short
              | Raised e es' \<Rightarrow> Raised e es'
              | Done (es', pos3) \<Rightarrow> read_directories heap file (pred_numeral k) es' pos3)))"
  by (simp add: numeral_eq_Suc)

lemma read_directory_files_numeral:
  "read_directory_files heap file dir_name (numeral k) es pos =
     (case read_string heap file pos of
        Short \<Rightarrow> Short
      | Raised e u \<Rightarrow> Raised e es
      | Done (file_name, pos1) \<Rightarrow>
         (case read_u32 file pos1 of
            None \<Rightarrow> Short
          | Some (encoded_offset, pos2) \<Rightarrow>
              if encoded_offset = 0x80000000
              then read_directory_files heap file dir_name (pred_numeral k) es pos2
              else read_directory_files heap file dir_name (pred_numeral k)
                     (map_assign (full_directory_path dir_name file_name) dummy_entry es) pos2))"
  by (simp add: numeral_eq_Suc)

lemma listed_file_names_numeral:
  "listed_file_names heap file dir_name (numeral k) pos =
     (case read_string heap file pos of
        Done (file_name, pos1) \<Rightarrow>
         (case read_u32 file pos1 of
            None \<Rightarrow> None
          | Some (encoded_offset, pos2) \<Rightarrow>
             (case listed_file_names heap file dir_name (pred_numeral k) pos2 of
                None \<Rightarrow> None
              | Some (ns, pos3) \<Rightarrow>
                  if encoded_offset = 0x80000000 then Some (ns, pos3)
                  else Some ((dir_name, file_name) # ns, pos3)))
      | _ \<Rightarrow> None)"
  by (simp add: numeral_eq_Suc)

lemma listed_names_numeral:
  "listed_names heap file (numeral k) pos =
     (case read_string heap file pos of
        Done (dir_name, pos1) \<Rightarrow>
         (case read_u32 file pos1 of
            None \<Rightarrow> None
          | Some (file_count, pos2) \<Rightarrow>
             (case listed_file_names heap file dir_name (unat file_count) pos2 of
                None \<Rightarrow> None
              | Some (ns, pos3) \<Rightarrow>
                 (case listed_names heap file (pred_numeral k) pos3 of
                    None \<Rightarrow> None
                  | Some (ms, pos4) \<Rightarrow> Some (ns @ ms, pos4))))
      | _ \<Rightarrow> None)"
  by (simp add: numeral_eq_Suc)

lemma compression_of_name_zeros [simp]: "compression_of_name (replicate 32 0) = None"
  by (simp add: compression_of_name_def)

lemma length_pak_v9_index [simp]: "length pak_v9_index = 207"
  by (simp add: pak_v9_index_def plain_record_def)

lemma length_pak_v9_footer [simp]: "length pak_v9_footer = 222"
  by (simp add: pak_v9_footer_def)

lemma length_pak_v11_index [simp]: "length pak_v11_index = 95"
  by (simp add: pak_v11_index_def)

lemma length_pak_v11_footer [simp]: "length (pak_v11_footer enc isize) = 221"
  by (simp add: pak_v11_footer_def)

lemmas footer_eval =
  read_footer_def reading_def reading_bool_def read_bool_def stream_read_word_def
  stream_read_def get_footer_size_def read_guid_def pak_MAGIC_def Let_def
  read_compression_names_numeral

lemmas index_eval =
  read_index_def reading_def then_read_def after_def heap_4GiB_def
  stream_read_word_def stream_read_def read_guid_def Let_def
  read_string_def read_entry_def read_entry_blocks_def read_entries_numeral read_blocks_numeral
  read_path_hash_index_def read_directories_numeral read_directory_files_numeral
  full_directory_path_def

lemma pak_v9_sample_V11:
  "read_footer pak_v9_sample V11 st =
     Threw (InvalidBooleanValue 0xE1)
       (st\<lparr> footer := (footer st)\<lparr> encryption_uuid := Some 0 \<rparr> \<rparr>)"
  by (simp add: footer_eval pak_v9_sample_def pak_v9_footer_def)

lemma pak_v9_sample_V10:
  "read_footer pak_v9_sample V10 st =
     Threw (InvalidBooleanValue 0xE1)
       (st\<lparr> footer := (footer st)\<lparr> encryption_uuid := Some 0 \<rparr> \<rparr>)"
  by (simp add: footer_eval pak_v9_sample_def pak_v9_footer_def)

lemma pak_v9_sample_V9:
  "read_footer pak_v9_sample V9 \<lparr> footer = ft, mount_point = mp, entries = es \<rparr> =
     Ok \<lparr> footer = pak_v9_footer_value, mount_point = mp, entries = es \<rparr>"
  by (cases ft)
    (simp add: footer_eval pak_v9_sample_def pak_v9_footer_def pak_v9_footer_value_def)

lemma pak_v9_sample_index:
  "read_index heap_4GiB pak_v9_sample
     \<lparr> footer = pak_v9_footer_value, mount_point = mp, entries = [] \<rparr> =
     Ok pak_v9_model"
  by (simp add: index_eval pak_v9_sample_def pak_v9_index_def plain_record_def
      pak_v9_footer_value_def plain_entry_def blocks_entry_def pak_v9_model_def)

lemma Impl_new_pak_v9_sample:
  "Impl_new heap_4GiB (Some pak_v9_sample) zero_footer = Opened pak_v9_model"
  by (simp add: Impl_new_def candidate_versions_def pak_v9_sample_V11 pak_v9_sample_V10
      pak_v9_sample_V9 pak_v9_sample_index)

lemma index_assignments_pak_v9_sample:
  "index_assignments heap_4GiB pak_v9_sample pak_v9_footer_value =
     Some [([0x62], plain_entry 1), ([0x2F, 0x61], blocks_entry), ([0x62], plain_entry 3)]"
  by (simp add: index_assignments_def index_start_def then_read_def after_def heap_4GiB_def
      stream_read_word_def stream_read_def read_guid_def
      read_string_def read_entry_def read_entry_blocks_def listed_entries_numeral
      read_blocks_numeral pak_v9_sample_def pak_v9_index_def plain_record_def
      pak_v9_footer_value_def plain_entry_def blocks_entry_def)

lemma pak_v11_sample_V11:
  "read_footer pak_v11_sample V11 \<lparr> footer = ft, mount_point = mp, entries = es \<rparr> =
     Ok \<lparr> footer = pak_v11_footer_value False 95, mount_point = mp, entries = es \<rparr>"
  by (cases ft)
    (simp add: footer_eval pak_v11_sample_def pak_v11_footer_def pak_v11_footer_value_def)

lemma pak_v11_sample_index:
  "read_index heap_4GiB pak_v11_sample
     \<lparr> footer = pak_v11_footer_value False 95, mount_point = mp, entries = [] \<rparr> =
     Ok pak_v11_model"
  by (simp add: index_eval pak_v11_sample_def pak_v11_index_def pak_v11_footer_value_def
      pak_v11_model_def)

lemma Impl_new_pak_v11_sample:
  "Impl_new heap_4GiB (Some pak_v11_sample) zero_footer = Opened pak_v11_model"
  by (simp add: Impl_new_def candidate_versions_def pak_v11_sample_V11 pak_v11_sample_index)

lemma index_names_pak_v11_sample:
  "index_names heap_4GiB pak_v11_sample (pak_v11_footer_value False 95) = Some [([0x2F], [0x61])]"
  by (simp add: index_names_def index_start_def listed_path_hash_index_def then_read_def
      heap_4GiB_def stream_read_word_def stream_read_def read_string_def
      listed_names_numeral listed_file_names_numeral
      pak_v11_sample_def pak_v11_index_def pak_v11_footer_value_def)

lemma pak_encrypted_V11:
  "read_footer pak_encrypted V11 \<lparr> footer = ft, mount_point = mp, entries = es \<rparr> =
     Ok \<lparr> footer = pak_v11_footer_value True 0, mount_point = mp, entries = es \<rparr>"
  by (cases ft)
    (simp add: footer_eval pak_encrypted_def pak_v11_footer_def pak_v11_footer_value_def)

lemma pak_encrypted_older:
  assumes "v \<in> set [V10, V9, V8B, V8A, V7, V6, V5, V4, V3, V2, V1]"
  shows "\<exists>e st'. read_footer pak_encrypted v st = Threw e st'"
proof -
  have
    "\<exists>e st'. read_footer pak_encrypted V10 st = Threw e st'"
    "\<exists>e st'. read_footer pak_encrypted V9 st = Threw e st'"
    "\<exists>e st'. read_footer pak_encrypted V8B st = Threw e st'"
    "\<exists>e st'. read_footer pak_encrypted V8A st = Threw e st'"
    "\<exists>e st'. read_footer pak_encrypted V7 st = Threw e st'"
    "\<exists>e st'. read_footer pak_encrypted V6 st = Threw e st'"
    "\<exists>e st'. read_footer pak_encrypted V5 st = Threw e st'"
    "\<exists>e st'. read_footer pak_encrypted V4 st = Threw e st'"
    "\<exists>e st'. read_footer pak_encrypted V3 st = Threw e st'"
    "\<exists>e st'. read_footer pak_encrypted V2 st = Threw e st'"
    "\<exists>e st'. read_footer pak_encrypted V1 st = Threw e st'"
    by (simp_all add: footer_eval pak_encrypted_def pak_v11_footer_def)
  with assms show ?thesis by auto
qed

lemma length_pak_stale_v9_index [simp]: "length pak_stale_v9_index = 146"
  by (simp add: pak_stale_v9_index_def)

lemma length_pak_stale_v2_index [simp]: "length pak_stale_v2_index = 63"
  by (simp add: pak_stale_v2_index_def)

lemma length_pak_stale_v2_footer [simp]: "length pak_stale_v2_footer = 44"
  by (simp add: pak_stale_v2_footer_def)

lemma length_pak_stale_v9_footer [simp]: "length pak_stale_v9_footer = 222"
  by (simp add: pak_stale_v9_footer_def)

lemma compression_of_name_zero [simp]: "compression_of_name (0 # bs) = None"
  by (simp add: compression_of_name_def)

lemma compression_of_name_zeros_append [simp]:
  "0 < n \<Longrightarrow> compression_of_name (replicate n 0 @ bs) = None"
  by (cases n) (simp_all add: compression_of_name_def)

lemmas stale_eval =
  pak_stale_def pak_stale_v9_footer_def pak_stale_v2_footer_def

lemma pak_stale_throws:
  assumes "v \<in> set [V11, V10, V8B, V8A, V7, V6, V5, V4, V3]"
  shows "\<exists>e st'. read_footer pak_stale v st = Threw e st'"
proof -
  have
    "\<exists>e st'. read_footer pak_stale V11 st = Threw e st'"
    "\<exists>e st'. read_footer pak_stale V10 st = Threw e st'"
    "\<exists>e st'. read_footer pak_stale V8B st = Threw e st'"
    "\<exists>e st'. read_footer pak_stale V8A st = Threw e st'"
    "\<exists>e st'. read_footer pak_stale V7 st = Threw e st'"
    "\<exists>e st'. read_footer pak_stale V6 st = Threw e st'"
    "\<exists>e st'. read_footer pak_stale V5 st = Threw e st'"
    "\<exists>e st'. read_footer pak_stale V4 st = Threw e st'"
    "\<exists>e st'. read_footer pak_stale V3 st = Threw e st'"
    by (simp_all add: footer_eval stale_eval)
  with assms show ?thesis by auto
qed

lemma pak_stale_V9:
  "read_footer pak_stale V9 \<lparr> footer = ft, mount_point = mp, entries = es \<rparr> =
     Ok \<lparr> footer = pak_stale_v9_footer_value, mount_point = mp, entries = es \<rparr>"
  by (cases ft)
    (simp add: footer_eval stale_eval pak_stale_v9_footer_value_def)

lemma pak_stale_V2:
  "read_footer pak_stale V2 \<lparr> footer = ft, mount_point = mp, entries = es \<rparr> =
     Ok \<lparr> footer = pak_stale_v2_footer_value, mount_point = mp, entries = es \<rparr>"
  by (cases ft)
    (simp add: footer_eval stale_eval pak_stale_v2_footer_value_def)

lemma pak_stale_V9_index:
  "read_index heap_4GiB pak_stale
     \<lparr> footer = pak_stale_v9_footer_value, mount_point = mp, entries = [] \<rparr> =
     Threw BadAlloc
       \<lparr> footer = pak_stale_v9_footer_value, mount_point = [],
         entries = [([0x70], blocks_entry)] \<rparr>"
  by (simp add: index_eval pak_stale_def pak_stale_v9_index_def
      pak_stale_v9_footer_value_def blocks_entry_def)

lemma pak_stale_V2_index:
  "read_index heap_4GiB pak_stale
     \<lparr> footer = pak_stale_v2_footer_value, mount_point = mp,
       entries = [([0x70], blocks_entry)] \<rparr> =
     Ok pak_stale_model"
  by (simp add: index_eval pak_stale_def pak_stale_v9_index_def pak_stale_v2_index_def
      pak_stale_v2_footer_value_def plain_entry_def pak_stale_model_def)

section \<open>The version probe\<close>

lemma probe_Failed: "probe heap file vs st = Failed e \<Longrightarrow> e = FailedToReadPakFile"
proof (induction vs arbitrary: st)
  case Nil
  then show ?case by simp
next
  case (Cons v vs)
  then show ?case
    by (auto split: outcome.splits)
qed

lemma probe_all_throw:
  assumes "\<And>v st. v \<in> set vs \<Longrightarrow> \<exists>e st'. read_footer file v st = Threw e st'"
  shows "probe heap file vs st = Failed FailedToReadPakFile"
  using assms
proof (induction vs arbitrary: st)
  case Nil
  then show ?case by simp
next
  case (Cons v vs)
  from Cons.prems [of v st] obtain e st' where "read_footer file v st = Threw e st'"
    by auto
  moreover have "probe heap file vs st' = Failed FailedToReadPakFile"
    by (rule Cons.IH) (simp add: Cons.prems)
  ultimately show ?case by simp
qed

lemma read_index_encrypted:
  "encrypted (footer st) \<Longrightarrow> read_index heap file st = Threw IndexIsEncrypted st"
  by (simp add: read_index_def)

lemma probe_encrypted:
  assumes "read_footer file v st = Ok st1" and "encrypted (footer st1)"
  shows "probe heap file (v # vs) st = probe heap file vs st1"
  using assms by (simp add: read_index_encrypted)

lemma Impl_new_pak_encrypted:
  "Impl_new heap (Some pak_encrypted) zero_footer = Failed FailedToReadPakFile"
proof -
  have "probe heap pak_encrypted [V10, V9, V8B, V8A, V7, V6, V5, V4, V3, V2, V1]
          \<lparr> footer = pak_v11_footer_value True 0, mount_point = [], entries = [] \<rparr>
        = Failed FailedToReadPakFile"
    by (rule probe_all_throw) (rule pak_encrypted_older)
  then show ?thesis
    by (simp add: Impl_new_def candidate_versions_def pak_encrypted_V11 read_index_encrypted
        pak_v11_footer_value_def)
qed

text \<open>
  C1, as stated: on an encrypted index open fails with the encrypted-index error, which the
  probe does not catch.  On the sample the footer of version 11 is decoded, its encrypted
  flag is set and \<^verbatim>\<open>read_index\<close> throws the refusal; the constructor nevertheless goes on
  through the older versions and fails with the generic error of the end of the loop.
\<close>

theorem encrypted_index_ends_in_generic_failure:
  "read_footer pak_encrypted V11 start_state
     = Ok (start_state\<lparr> footer := pak_v11_footer_value True 0 \<rparr>)
   \<and> encrypted (pak_v11_footer_value True 0)
   \<and> read_index heap_4GiB pak_encrypted (start_state\<lparr> footer := pak_v11_footer_value True 0 \<rparr>)
     = Threw IndexIsEncrypted (start_state\<lparr> footer := pak_v11_footer_value True 0 \<rparr>)
   \<and> Impl_new heap_4GiB (Some pak_encrypted) zero_footer = Failed FailedToReadPakFile
   \<and> FailedToReadPakFile \<noteq> IndexIsEncrypted"
  using Impl_new_pak_encrypted [of heap_4GiB]
  by (simp add: start_state_def pak_encrypted_V11 read_index_encrypted pak_v11_footer_value_def)

text \<open>
  C1, amended: the handler of the probe catches every exception.  When the footer of a
  candidate version is decoded and says that the index is encrypted, \<^verbatim>\<open>read_index\<close> throws
  the refusal, the handler catches it like any other failure, and the probe goes on with the
  next older candidate; and whenever the constructor fails on a file that could be opened
  for reading, it fails with the generic error of the end of the loop, never with the
  refusal.
\<close>

theorem probe_catches_encrypted_index:
  "(read_footer file v st = Ok st1 \<and> encrypted (footer st1) \<longrightarrow>
      read_index heap file st1 = Threw IndexIsEncrypted st1
      \<and> probe heap file (v # vs) st = probe heap file vs st1)
   \<and> (Impl_new heap (Some file) ft0 = Failed e \<longrightarrow> e = FailedToReadPakFile)"
  using probe_encrypted read_index_encrypted probe_Failed
  by (auto simp: Impl_new_def)

theorem probe_catches_encrypted_index_witness:
  "read_footer pak_encrypted V11 start_state
     = Ok (start_state\<lparr> footer := pak_v11_footer_value True 0 \<rparr>)
   \<and> encrypted (footer (start_state\<lparr> footer := pak_v11_footer_value True 0 \<rparr>))
   \<and> read_index heap_4GiB pak_encrypted (start_state\<lparr> footer := pak_v11_footer_value True 0 \<rparr>)
     = Threw IndexIsEncrypted (start_state\<lparr> footer := pak_v11_footer_value True 0 \<rparr>)
   \<and> probe heap_4GiB pak_encrypted (V11 # [V10, V9]) start_state
     = probe heap_4GiB pak_encrypted [V10, V9]
         (start_state\<lparr> footer := pak_v11_footer_value True 0 \<rparr>)
   \<and> Impl_new heap_4GiB (Some pak_encrypted) zero_footer = Failed FailedToReadPakFile"
proof -
  have f: "read_footer pak_encrypted V11 start_state
     = Ok (start_state\<lparr> footer := pak_v11_footer_value True 0 \<rparr>)"
    by (simp add: start_state_def pak_encrypted_V11)
  have e: "encrypted (footer (start_state\<lparr> footer := pak_v11_footer_value True 0 \<rparr>))"
    by (simp add: pak_v11_footer_value_def)
  from probe_catches_encrypted_index [of pak_encrypted V11 start_state
      "start_state\<lparr> footer := pak_v11_footer_value True 0 \<rparr>" heap_4GiB "[V10, V9]"
      zero_footer FailedToReadPakFile] f e Impl_new_pak_encrypted [of heap_4GiB]
  show ?thesis by simp
qed

section \<open>Footer size and the round trip of the footer\<close>

lemma length_le_bytes [simp]: "length (le_bytes n x) = n"
  by (induction n arbitrary: x) simp_all

lemma le_nat_le_bytes: "le_nat (le_bytes n x) = x mod 256 ^ n"
proof (induction n arbitrary: x)
  case 0
  then show ?case by simp
next
  case (Suc n)
  have "unat (of_nat (x mod 256) :: byte) = x mod 256"
    by (simp add: unat_of_nat)
  with Suc show ?case
    by (simp add: mod_mult2_eq)
qed

lemma le_nat_le_bytes_small: "x < 256 ^ n \<Longrightarrow> le_nat (le_bytes n x) = x"
  by (simp add: le_nat_le_bytes)

lemma word_of_le_bytes:
  assumes "LENGTH('a) = 8 * n"
  shows "(of_nat (le_nat (le_bytes n (unat (w :: 'a::len word)))) :: 'a word) = w"
proof -
  have "unat w < 2 ^ LENGTH('a)" by (rule unsigned_less)
  also have "(2::nat) ^ LENGTH('a) = 256 ^ n"
    using assms by (simp add: power_mult)
  finally show ?thesis by (simp add: le_nat_le_bytes)
qed

lemma compression_of_name_name [simp]: "compression_of_name (compression_name c) = c"
  by (auto simp: compression_of_name_def compression_name_def
      split: option.splits Compression.splits)

lemma length_compression_name [simp]: "length (compression_name c) = 32"
  by (simp add: compression_name_def split: option.splits Compression.splits)

lemma list_of_length_4: "length xs = 4 \<Longrightarrow> \<exists>a b c d. xs = [a, b, c, d]"
  by (auto simp: length_Suc_conv eval_nat_numeral)

lemma list_of_length_5: "length xs = 5 \<Longrightarrow> \<exists>a b c d e. xs = [a, b, c, d, e]"
  by (auto simp: length_Suc_conv eval_nat_numeral)

lemmas round_trip_eval =
  footer_eval encode_footer_def word_of_le_bytes le_nat_le_bytes_small footer_wf_def

lemma round_trip_before_V8A:
  assumes "footer_wf ft" and "version_num (version ft) < version_num V8A"
  shows "int (length (encode_footer ft)) = get_footer_size (version ft)
       \<and> read_footer (pre @ encode_footer ft) (version ft) st = Ok (st\<lparr> footer := ft \<rparr>)"
  using assms
  by (cases ft; cases st; cases "version ft") (auto simp add: round_trip_eval)

lemma round_trip_V8A:
  assumes "footer_wf ft" and "version ft = V8A"
  shows "int (length (encode_footer ft)) = get_footer_size (version ft)
       \<and> read_footer (pre @ encode_footer ft) (version ft) st = Ok (st\<lparr> footer := ft \<rparr>)"
proof -
  from assms obtain a b c d where "compression ft = [a, b, c, d]"
    using list_of_length_4 [of "compression ft"] by (auto simp: footer_wf_def)
  with assms show ?thesis
    by (cases ft; cases st) (auto simp add: round_trip_eval)
qed

lemma round_trip_from_V8B:
  assumes "footer_wf ft" and "version_num V8B \<le> version_num (version ft)"
  shows "int (length (encode_footer ft)) = get_footer_size (version ft)
       \<and> read_footer (pre @ encode_footer ft) (version ft) st = Ok (st\<lparr> footer := ft \<rparr>)"
proof -
  from assms obtain a b c d e where "compression ft = [a, b, c, d, e]"
    using list_of_length_5 [of "compression ft"] by (auto simp: footer_wf_def)
  with assms show ?thesis
    by (cases ft; cases st; cases "version ft") (auto simp add: round_trip_eval)
qed

lemma read_footer_encode_footer:
  assumes "footer_wf ft"
  shows "int (length (encode_footer ft)) = get_footer_size (version ft)
       \<and> read_footer (pre @ encode_footer ft) (version ft) st = Ok (st\<lparr> footer := ft \<rparr>)"
proof -
  consider "version_num (version ft) < version_num V8A" | "version ft = V8A"
    | "version_num V8B \<le> version_num (version ft)"
    by (cases "version ft") auto
  then show ?thesis
    using assms round_trip_before_V8A round_trip_V8A round_trip_from_V8B
    by cases blast+
qed

lemma get_footer_size_spec: "get_footer_size v = spec_footer_size v"
  by (cases v) (simp_all add: get_footer_size_def spec_footer_size_def)

lemma footer_wf_pak_v9_footer_value: "footer_wf pak_v9_footer_value"
  by (simp add: footer_wf_def pak_v9_footer_value_def)

text \<open>
  C5, as stated: decoding what the reference encoder wrote reproduces the footer struct, for
  every version.  A footer of version 5 with an empty compression list (no table is declared
  before \<open>V8A\<close>) is encoded in 45 bytes and decoded with the table of the older versions,
  which the decoder adds.
\<close>

theorem footer_before_V8A_not_reproduced:
  "read_footer (encode_footer pak_v5_footer_value) V5 start_state
     = Ok (start_state\<lparr> footer :=
             pak_v5_footer_value\<lparr> compression := [Some Zlib, Some Gzip, Some Oodle] \<rparr> \<rparr>)
   \<and> read_footer (encode_footer pak_v5_footer_value) V5 start_state
     \<noteq> Ok (start_state\<lparr> footer := pak_v5_footer_value \<rparr>)
   \<and> length (encode_footer pak_v5_footer_value) = 45
   \<and> compression pak_v5_footer_value = []"
  by (simp add: round_trip_eval pak_v5_footer_value_def start_state_def zero_footer_def)

text \<open>
  C5, amended: the footer size is 44 bytes, plus 16 from \<open>EncryptionKeyGuid\<close> on, plus 1 from
  \<open>IndexEncryption\<close> on, plus 1 for \<open>FrozenIndex\<close> alone, plus 128 from \<open>V8A\<close> on, plus 32 from
  \<open>V8B\<close> on, that is 44, 44, 44, 45, 45, 45, 61, 189, 221, 222, 221 and 221 bytes for \<open>V1\<close> to
  \<open>V11\<close>.  The reference encoder writes that many bytes for a footer that is well formed for
  its version, and decoding them at the file size minus the footer size reproduces the
  footer; well formed means, for a version before \<open>V8A\<close>, that the compression list is the
  table \<open>[Zlib, Gzip, Oodle]\<close> which the decoder adds for those versions.
\<close>

theorem footer_size_and_round_trip:
  "map get_footer_size [V0, V1, V2, V3, V4, V5, V6, V7, V8A, V8B, V9, V10, V11]
     = [44, 44, 44, 44, 45, 45, 45, 61, 189, 221, 222, 221, 221]
   \<and> get_footer_size v = spec_footer_size v
   \<and> (footer_wf ft \<longrightarrow>
        int (length (encode_footer ft)) = get_footer_size (version ft)
        \<and> read_footer (pre @ encode_footer ft) (version ft) st = Ok (st\<lparr> footer := ft \<rparr>))"
  using read_footer_encode_footer [of ft pre st] get_footer_size_spec [of v]
  by (simp add: get_footer_size_def)

theorem footer_size_and_round_trip_witness:
  "footer_wf pak_v9_footer_value
   \<and> int (length (encode_footer pak_v9_footer_value)) = 222
   \<and> read_footer (pak_v9_index @ encode_footer pak_v9_footer_value) V9 start_state
     = Ok (start_state\<lparr> footer := pak_v9_footer_value \<rparr>)"
  using footer_size_and_round_trip [of V9 pak_v9_footer_value pak_v9_index start_state]
    footer_wf_pak_v9_footer_value
  by (simp add: get_footer_size_def pak_v9_footer_value_def)

section \<open>The states of the probe\<close>

lemma outcome_all_simps [simp]:
  "outcome_all P Q (Ok s) = P s"
  "outcome_all P Q (Threw e s) = Q s"
  "outcome_all P Q StreamFailed"
  by (simp_all add: outcome_all_def)

lemma outcome_all_reading:
  "(\<And>x pos. r = Some (x, pos) \<Longrightarrow> outcome_all P Q (k x pos)) \<Longrightarrow>
     outcome_all P Q (reading r k)"
  by (simp add: reading_def split: option.splits)

lemma outcome_all_reading_bool:
  "Q st \<Longrightarrow> (\<And>b pos. r = Some (Inr b, pos) \<Longrightarrow> outcome_all P Q (k b pos)) \<Longrightarrow>
     outcome_all P Q (reading_bool r st k)"
  by (simp add: reading_bool_def split: option.splits sum.splits)

lemma outcome_all_if:
  "(c \<Longrightarrow> outcome_all P Q a) \<Longrightarrow> (\<not> c \<Longrightarrow> outcome_all P Q b) \<Longrightarrow>
     outcome_all P Q (if c then a else b)"
  by simp

lemma read_footer_all:
  "outcome_all
     (\<lambda>s. entries s = entries st \<and> mount_point s = mount_point st
          \<and> version (footer s) = v
          \<and> version_major (footer s) = major_num (version_to_major v)
          \<and> magic (footer s) = pak_MAGIC)
     (\<lambda>s. entries s = entries st \<and> mount_point s = mount_point st)
     (read_footer file v st)"
  unfolding read_footer_def Let_def
  by (intro outcome_all_if outcome_all_reading outcome_all_reading_bool) simp_all

lemma read_footer_Threw:
  assumes "read_footer file v st = Threw e st'"
  shows "entries st' = entries st \<and> mount_point st' = mount_point st"
  using read_footer_all [of st v "file"] assms by simp

lemma read_footer_Ok:
  assumes "read_footer file v st = Ok st'"
  shows "entries st' = entries st \<and> mount_point st' = mount_point st
       \<and> version (footer st') = v
       \<and> version_major (footer st') = major_num (version_to_major v)
       \<and> magic (footer st') = pak_MAGIC"
  using read_footer_all [of st v "file"] assms by simp

text \<open>
  A footer of version 11 and one of version 10 are read from the same bytes, so a file has
  at most one of them.
\<close>

lemma Suc_diff_201: "\<not> n < 221 \<Longrightarrow> Suc (n - 201) = n - 200"
  by arith

lemma read_footer_V11_declared:
  "outcome_all (\<lambda>s. declared_major file = 11) (\<lambda>s. True) (read_footer file V11 st)"
  unfolding read_footer_def Let_def
  by (intro outcome_all_if outcome_all_reading outcome_all_reading_bool)
    (auto simp: Suc_diff_201 declared_major_def get_footer_size_def read_bool_def stream_read_word_def
      stream_read_def split: if_splits option.splits)

lemma read_footer_V10_declared:
  "outcome_all (\<lambda>s. declared_major file = 10) (\<lambda>s. True) (read_footer file V10 st)"
  unfolding read_footer_def Let_def
  by (intro outcome_all_if outcome_all_reading outcome_all_reading_bool)
    (auto simp: Suc_diff_201 declared_major_def get_footer_size_def read_bool_def stream_read_word_def
      stream_read_def split: if_splits option.splits)

lemma read_footer_V11_V10:
  assumes "read_footer file V11 st = Ok s1" and "read_footer file V10 st' = Ok s2"
  shows False
  using read_footer_V11_declared [of "file" st] read_footer_V10_declared [of "file" st'] assms
  by simp

section \<open>The map of the entries\<close>

lemma map_fst_map_assign:
  "set (map fst (map_assign k v es)) = insert k (set (map fst es))"
proof (induction es)
  case Nil
  then show ?case by simp
next
  case (Cons kv es)
  obtain k' v' where kv: "kv = (k', v')" by (cases kv)
  have "k = k'" if "\<not> k < k'" and "\<not> k' < k"
    using that by simp
  with Cons.IH kv show ?case by auto
qed

lemma keys_map_assign: "fst ` set (map_assign k v es) = insert k (fst ` set es)"
  using map_fst_map_assign [of k v es] by simp

lemma sorted_map_assign:
  "sorted_wrt (<) (map fst es) \<Longrightarrow> sorted_wrt (<) (map fst (map_assign k v es))"
proof (induction es)
  case Nil
  then show ?case by simp
next
  case (Cons kv es)
  obtain k' v' where kv: "kv = (k', v')" by (cases kv)
  from Cons.prems kv have below: "\<forall>x \<in> fst ` set es. k' < x" and rest: "sorted_wrt (<) (map fst es)"
    by auto
  show ?case
  proof (cases "k < k'")
    case True
    with Cons.prems kv below show ?thesis by (auto intro: less_trans)
  next
    case False
    show ?thesis
    proof (cases "k' < k")
      case True
      with below have "\<forall>x \<in> fst ` set (map_assign k v es). k' < x"
        by (simp add: keys_map_assign)
      with Cons.IH [OF rest] kv True \<open>\<not> k < k'\<close> show ?thesis by auto
    next
      case False
      with \<open>\<not> k < k'\<close> Cons.prems kv show ?thesis by auto
    qed
  qed
qed

lemma map_of_map_assign:
  "sorted_wrt (<) (map fst es) \<Longrightarrow> map_of (map_assign k v es) = (map_of es)(k \<mapsto> v)"
proof (induction es)
  case Nil
  then show ?case by simp
next
  case (Cons kv es)
  obtain k' v' where kv: "kv = (k', v')" by (cases kv)
  from Cons.prems have rest: "sorted_wrt (<) (map fst es)"
    by simp
  have eq: "k = k'" if "\<not> k < k'" and "\<not> k' < k"
    using that by simp
  show ?case
    unfolding kv using Cons.IH [OF rest] eq
    by (auto simp: fun_eq_iff)
qed

lemma assign_all_simps [simp]:
  "assign_all es [] = es"
  "assign_all es ((k, v) # ps) = assign_all (map_assign k v es) ps"
  "assign_all es (ps @ qs) = assign_all (assign_all es ps) qs"
  by (simp_all add: assign_all_def)

lemma sorted_assign_all:
  "sorted_wrt (<) (map fst es) \<Longrightarrow> sorted_wrt (<) (map fst (assign_all es ps))"
  by (induction ps arbitrary: es) (auto simp: sorted_map_assign)

lemma map_of_assign_all:
  "sorted_wrt (<) (map fst es) \<Longrightarrow> map_of (assign_all es ps) = map_of es ++ map_of (rev ps)"
proof (induction ps arbitrary: es)
  case Nil
  then show ?case by simp
next
  case (Cons p ps)
  obtain k v where p: "p = (k, v)" by (cases p)
  from Cons.prems have s: "sorted_wrt (<) (map fst (map_assign k v es))"
    by (rule sorted_map_assign)
  from Cons.IH [OF s] p Cons.prems show ?case
    by (simp add: map_of_map_assign map_add_upd_left fun_eq_iff map_add_def split: option.splits)
qed

lemma strictly_sorted_is_sorted_list_of_set:
  fixes xs :: "std_string list"
  assumes "sorted_wrt (<) xs"
  shows "sorted_list_of_set (set xs) = xs"
  using assms by (simp add: strict_sorted_iff sorted_list_of_set.idem_if_sorted_distinct)

lemma keys_assign_all:
  "set (map fst (assign_all es ps)) = set (map fst es) \<union> set (map fst ps)"
proof (induction ps arbitrary: es)
  case Nil
  then show ?case by simp
next
  case (Cons p ps)
  obtain k v where p: "p = (k, v)" by (cases p)
  have "set (map fst (assign_all (map_assign k v es) ps))
      = insert k (set (map fst es)) \<union> set (map fst ps)"
    unfolding Cons.IH map_fst_map_assign ..
  with p show ?case by simp
qed


subsection \<open>The order of the keys\<close>

lemma read_entries_sorted:
  assumes "stored (read_entries heap file ft n es pos) = Some es'"
    and "sorted_wrt (<) (map fst es)"
  shows "sorted_wrt (<) (map fst es')"
  using assms
proof (induction n arbitrary: es pos)
  case 0
  then show ?case by simp
next
  case (Suc n)
  show ?case
  proof (cases "read_string heap file pos")
    case (Done a)
    obtain path pos1 where a: "a = (path, pos1)" by (cases a)
    show ?thesis
    proof (cases "read_entry heap ft file pos1")
      case d: (Done b)
      obtain entry pos2 where b: "b = (entry, pos2)" by (cases b)
      from Suc.prems(1) Done a d b
      have "stored (read_entries heap file ft n (map_assign path entry es) pos2) = Some es'"
        by simp
      from Suc.IH [OF this sorted_map_assign [OF Suc.prems(2)]] show ?thesis .
    next
      case (Raised e u)
      with Suc.prems Done a show ?thesis by simp
    next
      case Short
      with Suc.prems Done a show ?thesis by simp
    qed
  next
    case (Raised e u)
    with Suc.prems show ?thesis by simp
  next
    case Short
    with Suc.prems show ?thesis by simp
  qed
qed

lemma read_directory_files_sorted:
  assumes "stored (read_directory_files heap file d n es pos) = Some es'"
    and "sorted_wrt (<) (map fst es)"
  shows "sorted_wrt (<) (map fst es')"
  using assms
proof (induction n arbitrary: es pos)
  case 0
  then show ?case by simp
next
  case (Suc n)
  show ?case
  proof (cases "read_string heap file pos")
    case (Done a)
    obtain file_name pos1 where a: "a = (file_name, pos1)" by (cases a)
    show ?thesis
    proof (cases "read_u32 file pos1")
      case None
      with Suc.prems Done a show ?thesis by simp
    next
      case (Some b)
      obtain encoded_offset pos2 where b: "b = (encoded_offset, pos2)" by (cases b)
      show ?thesis
      proof (cases "encoded_offset = 0x80000000")
        case True
        with Suc.prems(1) Done a Some b
        have "stored (read_directory_files heap file d n es pos2) = Some es'" by simp
        from Suc.IH [OF this Suc.prems(2)] show ?thesis .
      next
        case False
        with Suc.prems(1) Done a Some b
        have "stored (read_directory_files heap file d n
                 (map_assign (full_directory_path d file_name) dummy_entry es) pos2) = Some es'"
          by simp
        from Suc.IH [OF this sorted_map_assign [OF Suc.prems(2)]] show ?thesis .
      qed
    qed
  next
    case (Raised e u)
    with Suc.prems show ?thesis by simp
  next
    case Short
    with Suc.prems show ?thesis by simp
  qed
qed

lemma read_directories_sorted:
  assumes "stored (read_directories heap file n es pos) = Some es'"
    and "sorted_wrt (<) (map fst es)"
  shows "sorted_wrt (<) (map fst es')"
  using assms
proof (induction n arbitrary: es pos)
  case 0
  then show ?case by simp
next
  case (Suc n)
  show ?case
  proof (cases "read_string heap file pos")
    case (Done a)
    obtain dir_name pos1 where a: "a = (dir_name, pos1)" by (cases a)
    show ?thesis
    proof (cases "read_u32 file pos1")
      case None
      with Suc.prems Done a show ?thesis by simp
    next
      case (Some b)
      obtain file_count pos2 where b: "b = (file_count, pos2)" by (cases b)
      show ?thesis
      proof (cases "read_directory_files heap file dir_name (unat file_count) es pos2")
        case d: (Done c)
        obtain es1 pos3 where c: "c = (es1, pos3)" by (cases c)
        from d c have "stored (read_directory_files heap file dir_name (unat file_count) es pos2)
            = Some es1" by simp
        from read_directory_files_sorted [OF this Suc.prems(2)]
        have s1: "sorted_wrt (<) (map fst es1)" .
        from Suc.prems(1) Done a Some b d c
        have "stored (read_directories heap file n es1 pos3) = Some es'" by simp
        from Suc.IH [OF this s1] show ?thesis .
      next
        case (Raised e es1)
        then have "stored (read_directory_files heap file dir_name (unat file_count) es pos2)
            = Some es1" by simp
        from read_directory_files_sorted [OF this Suc.prems(2)]
        have "sorted_wrt (<) (map fst es1)" .
        with Suc.prems(1) Done a Some b Raised show ?thesis by simp
      next
        case Short
        with Suc.prems Done a Some b show ?thesis by simp
      qed
    qed
  next
    case (Raised e u)
    with Suc.prems show ?thesis by simp
  next
    case Short
    with Suc.prems show ?thesis by simp
  qed
qed

lemma read_path_hash_index_cases:
  assumes "read_path_hash_index heap file es pos = Done es'
         \<or> read_path_hash_index heap file es pos = Raised e es'"
  shows "es' = es \<or> (\<exists>n p. stored (read_directories heap file n es p) = Some es')"
  using assms
  by (auto simp: read_path_hash_index_def then_read_def
      split: option.splits if_splits result.splits)
    (metis stored.simps)+

lemma read_path_hash_index_sorted:
  assumes "read_path_hash_index heap file es pos = Done es'
         \<or> read_path_hash_index heap file es pos = Raised e es'"
    and "sorted_wrt (<) (map fst es)"
  shows "sorted_wrt (<) (map fst es')"
  using read_path_hash_index_cases [OF assms(1)] read_directories_sorted assms(2)
  by blast

lemma read_index_sorted:
  assumes "sorted_wrt (<) (map fst (entries st))"
  shows "outcome_all (\<lambda>s. sorted_wrt (<) (map fst (entries s)))
           (\<lambda>s. sorted_wrt (<) (map fst (entries s))) (read_index heap file st)"
proof -
  have a1: "sorted_wrt (<) (map fst es')"
    if "read_path_hash_index heap file (entries st) pos = Done es'" for pos es'
    using read_path_hash_index_sorted [OF _ assms] that by blast
  have a2: "sorted_wrt (<) (map fst es')"
    if "read_path_hash_index heap file (entries st) pos = Raised e es'" for pos es' e
    using read_path_hash_index_sorted [OF _ assms] that by blast
  have b1: "sorted_wrt (<) (map fst es')"
    if "read_entries heap file ft n (entries st) pos = Done (es', pos')" for ft n pos es' pos'
    using read_entries_sorted [OF _ assms, of heap "file" ft n pos es'] that by simp
  have b2: "sorted_wrt (<) (map fst es')"
    if "read_entries heap file ft n (entries st) pos = Raised e es'" for ft n pos es' e
    using read_entries_sorted [OF _ assms, of heap "file" ft n pos es'] that by simp
  show ?thesis
    unfolding read_index_def Let_def
    using assms
    by (auto simp: reading_def split: result.splits option.splits intro: a1 a2 b1 b2)
qed

lemma probe_Opened:
  assumes "probe heap file vs st = Opened st'"
    and "sorted_wrt (<) (map fst (entries st))"
  shows "\<exists>v st1 st2. v \<in> set vs \<and> sorted_wrt (<) (map fst (entries st1))
           \<and> read_footer file v st1 = Ok st2 \<and> read_index heap file st2 = Ok st'"
  using assms
proof (induction vs arbitrary: st)
  case Nil
  then show ?case by simp
next
  case (Cons v vs)
  show ?case
  proof (cases "read_footer file v st")
    case StreamFailed
    with Cons.prems show ?thesis by simp
  next
    case (Threw e st1)
    with Cons.prems have "probe heap file vs st1 = Opened st'" by simp
    moreover from read_footer_Threw [OF Threw] Cons.prems
    have "sorted_wrt (<) (map fst (entries st1))" by simp
    ultimately show ?thesis using Cons.IH by fastforce
  next
    case (Ok st1)
    from read_footer_Ok [OF Ok] Cons.prems
    have s1: "sorted_wrt (<) (map fst (entries st1))" by simp
    show ?thesis
    proof (cases "read_index heap file st1")
      case StreamFailed
      with Ok Cons.prems show ?thesis by simp
    next
      case (Threw e st2)
      with Ok Cons.prems have "probe heap file vs st2 = Opened st'" by simp
      moreover from read_index_sorted [OF s1, of heap "file"] Threw
      have "sorted_wrt (<) (map fst (entries st2))" by simp
      ultimately show ?thesis using Cons.IH by fastforce
    next
      case ok2: (Ok st2)
      with Ok Cons.prems have "st2 = st'" by simp
      with Ok ok2 Cons.prems show ?thesis by auto
    qed
  qed
qed

lemma Impl_new_Opened:
  assumes "Impl_new heap file ft0 = Opened st"
  shows "\<exists>data v st1 st2. file = Some data \<and> v \<in> set candidate_versions
           \<and> sorted_wrt (<) (map fst (entries st1))
           \<and> read_footer data v st1 = Ok st2 \<and> read_index heap data st2 = Ok st"
proof -
  from assms obtain data where d: "file = Some data"
    by (cases "file") (auto simp: Impl_new_def)
  with assms have "probe heap data candidate_versions
      \<lparr> footer = ft0, mount_point = [], entries = [] \<rparr> = Opened st"
    by (simp add: Impl_new_def)
  from probe_Opened [OF this] d show ?thesis by auto
qed

subsection \<open>What an index that is read to its end assigns\<close>

lemma placeholders_simps [simp]:
  "placeholders [] = []"
  "placeholders ((d, f) # ns) = (full_directory_path d f, dummy_entry) # placeholders ns"
  "placeholders (ns @ ms) = placeholders ns @ placeholders ms"
  by (simp_all add: placeholders_def)

lemma read_entries_listed:
  assumes "read_entries heap file ft n es pos = Done (es', pos')"
  shows "\<exists>ps. listed_entries heap file ft n pos = Some (ps, pos') \<and> es' = assign_all es ps"
  using assms
proof (induction n arbitrary: es pos)
  case 0
  then show ?case by simp
next
  case (Suc n)
  from Suc.prems obtain path pos1 entry pos2 where
    s: "read_string heap file pos = Done (path, pos1)" and
    e: "read_entry heap ft file pos1 = Done (entry, pos2)" and
    rest: "read_entries heap file ft n (map_assign path entry es) pos2 = Done (es', pos')"
    by (auto split: result.splits)
  from Suc.IH [OF rest] s e show ?case by auto
qed

lemma read_directory_files_listed:
  assumes "read_directory_files heap file d n es pos = Done (es', pos')"
  shows "\<exists>ns. listed_file_names heap file d n pos = Some (ns, pos')
            \<and> es' = assign_all es (placeholders ns)"
  using assms
proof (induction n arbitrary: es pos)
  case 0
  then show ?case by simp
next
  case (Suc n)
  from Suc.prems obtain file_name pos1 pos2 and encoded_offset :: "32 word" where
    s: "read_string heap file pos = Done (file_name, pos1)" and
    o: "read_u32 file pos1 = Some (encoded_offset, pos2)" and
    rest: "(if encoded_offset = 0x80000000
            then read_directory_files heap file d n es pos2
            else read_directory_files heap file d n
                   (map_assign (full_directory_path d file_name) dummy_entry es) pos2)
           = Done (es', pos')"
    by (auto split: result.splits option.splits)
  show ?case
  proof (cases "encoded_offset = 0x80000000")
    case True
    with rest have "read_directory_files heap file d n es pos2 = Done (es', pos')" by simp
    from Suc.IH [OF this] s o True show ?thesis by auto
  next
    case False
    with rest have "read_directory_files heap file d n
        (map_assign (full_directory_path d file_name) dummy_entry es) pos2 = Done (es', pos')"
      by simp
    from Suc.IH [OF this] s o False show ?thesis by auto
  qed
qed

lemma read_directories_listed:
  assumes "read_directories heap file n es pos = Done (es', pos')"
  shows "\<exists>ns. listed_names heap file n pos = Some (ns, pos')
            \<and> es' = assign_all es (placeholders ns)"
  using assms
proof (induction n arbitrary: es pos)
  case 0
  then show ?case by simp
next
  case (Suc n)
  from Suc.prems obtain dir_name pos1 pos2 es1 pos3 and file_count :: "32 word" where
    s: "read_string heap file pos = Done (dir_name, pos1)" and
    c: "read_u32 file pos1 = Some (file_count, pos2)" and
    inner: "read_directory_files heap file dir_name (unat file_count) es pos2
            = Done (es1, pos3)" and
    rest: "read_directories heap file n es1 pos3 = Done (es', pos')"
    by (auto split: result.splits option.splits)
  from read_directory_files_listed [OF inner] obtain ns where
    ns: "listed_file_names heap file dir_name (unat file_count) pos2 = Some (ns, pos3)"
      "es1 = assign_all es (placeholders ns)"
    by blast
  from Suc.IH [OF rest] obtain ms where
    ms: "listed_names heap file n pos3 = Some (ms, pos')"
      "es' = assign_all es1 (placeholders ms)"
    by blast
  from s c ns ms show ?case by simp
qed

lemma read_path_hash_index_listed:
  assumes "read_path_hash_index heap file es pos = Done es'"
  shows "\<exists>ns. listed_path_hash_index heap file pos = Some ns
            \<and> es' = assign_all es (placeholders ns)"
  using assms
  by (auto simp: read_path_hash_index_def listed_path_hash_index_def then_read_def
      split: option.splits if_splits result.splits bind_splits
      dest!: read_directories_listed)

lemma read_index_Ok:
  assumes "read_index heap file st = Ok st'"
  shows "footer st' = footer st"
  using assms unfolding read_index_def Let_def
  by (auto simp: reading_def split: if_splits option.splits result.splits)

lemma read_index_names:
  assumes "read_index heap file st = Ok st'"
    and "version_major (footer st) \<ge> major_num PathHashIndex"
  shows "\<exists>ns. index_names heap file (footer st) = Some ns
            \<and> entries st' = assign_all (entries st) (placeholders ns)"
  using assms unfolding read_index_def index_names_def index_start_def Let_def
  by (auto simp: reading_def split: if_splits option.splits result.splits
      dest!: read_path_hash_index_listed)

lemma read_index_assignments:
  assumes "read_index heap file st = Ok st'"
  shows "\<exists>ps. index_assignments heap file (footer st) = Some ps
            \<and> entries st' = assign_all (entries st) ps"
proof (cases "version_major (footer st) \<ge> major_num PathHashIndex")
  case True
  with read_index_names [OF assms] show ?thesis
    by (auto simp: index_assignments_def)
next
  case False
  with assms show ?thesis
    unfolding read_index_def index_assignments_def index_start_def Let_def
    by (auto simp: reading_def split: if_splits option.splits result.splits
        dest!: read_entries_listed)
qed

lemma full_directory_path_joined:
  "full_directory_path d f =
     (if joined_path d f \<noteq> [] \<and> hd (joined_path d f) = 0x2F then tl (joined_path d f)
      else joined_path d f)"
  by (simp add: full_directory_path_def joined_path_def Let_def)

lemma full_directory_path_slash:
  assumes "full_directory_path d f \<noteq> []" and "hd (full_directory_path d f) = 0x2F"
  shows "take 2 (joined_path d f) = [0x2F, 0x2F]"
proof -
  obtain xs where xs: "joined_path d f = xs" by simp
  from assms show ?thesis
    unfolding full_directory_path_joined xs
    by (cases xs; cases "tl xs") (auto split: if_splits)
qed

section \<open>Blocks and compression slots\<close>

text \<open>
  Candidates whose footer throws are passed over with the mount point and the entries as
  they are.
\<close>

lemma probe_skips_throws:
  assumes "\<And>v st. v \<in> set vs \<Longrightarrow> \<exists>e st'. read_footer file v st = Threw e st'"
  shows "\<exists>ft'. probe heap file (vs @ ws) \<lparr> footer = ft, mount_point = mp, entries = es \<rparr>
               = probe heap file ws \<lparr> footer = ft', mount_point = mp, entries = es \<rparr>"
  using assms
proof (induction vs arbitrary: ft)
  case Nil
  then show ?case by auto
next
  case (Cons v vs)
  from Cons.prems [of v] obtain e st' where
    t: "read_footer file v \<lparr> footer = ft, mount_point = mp, entries = es \<rparr> = Threw e st'"
    by fastforce
  from read_footer_Threw [OF t]
  have st': "st' = \<lparr> footer = footer st', mount_point = mp, entries = es \<rparr>"
    by (cases st') simp
  have "\<exists>ft'. probe heap file (vs @ ws) \<lparr> footer = footer st', mount_point = mp, entries = es \<rparr>
               = probe heap file ws \<lparr> footer = ft', mount_point = mp, entries = es \<rparr>"
    by (rule Cons.IH) (simp add: Cons.prems)
  with t st' show ?case by simp
qed

lemma Impl_new_pak_stale:
  "Impl_new heap_4GiB (Some pak_stale) zero_footer = Opened pak_stale_model"
proof -
  let ?st = "\<lambda>ft es. \<lparr> footer = ft, mount_point = [], entries = es \<rparr>"
  have "\<exists>ft'. probe heap_4GiB pak_stale
                 ([V11, V10] @ [V9, V8B, V8A, V7, V6, V5, V4, V3, V2, V1]) (?st zero_footer [])
               = probe heap_4GiB pak_stale [V9, V8B, V8A, V7, V6, V5, V4, V3, V2, V1]
                   (?st ft' [])"
    by (rule probe_skips_throws) (rule pak_stale_throws, auto)
  then obtain ft1 where
    "probe heap_4GiB pak_stale candidate_versions (?st zero_footer []) =
     probe heap_4GiB pak_stale [V9, V8B, V8A, V7, V6, V5, V4, V3, V2, V1] (?st ft1 [])"
    by (auto simp: candidate_versions_def simp del: probe.simps)
  also have "\<dots> = probe heap_4GiB pak_stale [V8B, V8A, V7, V6, V5, V4, V3, V2, V1]
      (?st pak_stale_v9_footer_value [([0x70], blocks_entry)])"
    by (simp add: pak_stale_V9 pak_stale_V9_index)
  also have "\<exists>ft'. probe heap_4GiB pak_stale ([V8B, V8A, V7, V6, V5, V4, V3] @ [V2, V1])
                 (?st pak_stale_v9_footer_value [([0x70], blocks_entry)])
               = probe heap_4GiB pak_stale [V2, V1] (?st ft' [([0x70], blocks_entry)])"
    by (rule probe_skips_throws) (rule pak_stale_throws, auto)
  then obtain ft2 where
    "probe heap_4GiB pak_stale [V8B, V8A, V7, V6, V5, V4, V3, V2, V1]
      (?st pak_stale_v9_footer_value [([0x70], blocks_entry)])
     = probe heap_4GiB pak_stale [V2, V1] (?st ft2 [([0x70], blocks_entry)])"
    by (auto simp del: probe.simps)
  also have "\<dots> = Opened pak_stale_model"
    by (simp add: pak_stale_V2 pak_stale_V2_index)
  finally show ?thesis
    by (simp add: Impl_new_def)
qed

text \<open>What \<^verbatim>\<open>read_entry\<close> returns has a block list exactly under the test of the source.\<close>

lemma read_entry_blocks:
  assumes "read_entry heap ft file pos = Done (e, pos')"
  shows "(blocks e \<noteq> None) =
         (compression_slot e \<noteq> None \<and> version_major ft \<ge> major_num CompressionEncryption)"
  using assms
  by (auto simp: read_entry_def read_entry_blocks_def then_read_def after_def
      split: option.splits if_splits result.splits prod.splits)

lemma listed_entries_blocks:
  assumes "listed_entries heap file ft n pos = Some (ps, pos')"
  shows "\<forall>(path, e) \<in> set ps. (blocks e \<noteq> None) =
         (compression_slot e \<noteq> None \<and> version_major ft \<ge> major_num CompressionEncryption)"
  using assms
proof (induction n arbitrary: pos ps)
  case 0
  then show ?case by simp
next
  case (Suc n)
  from Suc.prems obtain path pos1 entry pos2 qs where
    e: "read_entry heap ft file pos1 = Done (entry, pos2)" and
    rest: "listed_entries heap file ft n pos2 = Some (qs, pos')" and
    ps: "ps = (path, entry) # qs"
    by (auto split: result.splits option.splits)
  from Suc.IH [OF rest] read_entry_blocks [OF e] ps show ?case by simp
qed

text \<open>
  The entries that the index of a footer assigns satisfy the equivalence of C7 for the
  version of that footer.
\<close>

lemma index_assignments_blocks:
  assumes "index_assignments heap file ft = Some ps"
  shows "\<forall>(path, e) \<in> set ps. (blocks e \<noteq> None) =
         (compression_slot e \<noteq> None \<and> version_major ft \<ge> major_num CompressionEncryption)"
proof (cases "version_major ft \<ge> major_num PathHashIndex")
  case True
  with assms show ?thesis
    by (auto simp: index_assignments_def placeholders_def dummy_entry_def)
next
  case False
  with assms obtain n pos pos' where "listed_entries heap file ft n pos = Some (ps, pos')"
    by (auto simp: index_assignments_def split: bind_splits)
  from listed_entries_blocks [OF this] show ?thesis .
qed

text \<open>
  C7.  The file \<open>pak_stale\<close> is opened on a machine that refuses a request of 64 GiB.  The
  attempt for version 9 decodes the footer, stores the entry \<open>"p"\<close> with its block list, and
  ends in \<^verbatim>\<open>std::bad_alloc\<close> at the block count of the entry \<open>"r"\<close>.  The handler goes on; the
  attempt for version 2 is accepted and adds \<open>"q"\<close>.  The model of the opened file has the
  version major 2, below \<open>CompressionEncryption\<close>, and its entry \<open>"p"\<close> has a compression slot
  and a block list.
\<close>

theorem stale_entry_keeps_blocks:
  "read_index heap_4GiB pak_stale
     \<lparr> footer = pak_stale_v9_footer_value, mount_point = [], entries = [] \<rparr>
     = Threw BadAlloc \<lparr> footer = pak_stale_v9_footer_value, mount_point = [],
                        entries = [([0x70], blocks_entry)] \<rparr>
   \<and> Impl_new heap_4GiB (Some pak_stale) zero_footer = Opened pak_stale_model
   \<and> entries pak_stale_model = [([0x70], blocks_entry), ([0x71], plain_entry 3)]
   \<and> version_major (footer pak_stale_model) = 2
   \<and> major_num CompressionEncryption = 3
   \<and> compression_slot blocks_entry = Some 0
   \<and> blocks blocks_entry = Some [\<lparr> start = 100, end' = 200 \<rparr>]
   \<and> (blocks blocks_entry \<noteq> None) \<noteq>
       (compression_slot blocks_entry \<noteq> None
        \<and> version_major (footer pak_stale_model) \<ge> major_num CompressionEncryption)"
  using Impl_new_pak_stale pak_stale_V9_index [of "[]"]
  by (simp add: pak_stale_model_def pak_stale_v2_footer_value_def blocks_entry_def)

section \<open>The listing of the files\<close>

lemma Opened_assignments:
  assumes "Impl_new heap file ft0 = Opened st"
  shows "\<exists>data es ps. file = Some data \<and> sorted_wrt (<) (map fst es)
           \<and> index_assignments heap data (footer st) = Some ps
           \<and> entries st = assign_all es ps"
proof -
  from Impl_new_Opened [OF assms] obtain data v st1 st2 where
    d: "file = Some data" and e: "sorted_wrt (<) (map fst (entries st1))" and
    f: "read_footer data v st1 = Ok st2" and i: "read_index heap data st2 = Ok st"
    by blast
  from read_footer_Ok [OF f] e have e2: "sorted_wrt (<) (map fst (entries st2))" by simp
  from read_index_Ok [OF i] have ft: "footer st = footer st2" .
  from read_index_assignments [OF i] e2 ft d show ?thesis by auto
qed

text \<open>
  C10.  For every opened PAK, \<^verbatim>\<open>files()\<close> is strictly increasing in the lexicographic order
  of the bytes, so it holds each stored path once, and it is the sorted list of the set of
  the stored paths, whatever the order in which they were stored.  Every path that the index
  of the accepted footer assigns is listed, and the entry kept for it is the one that the
  index assigns last.
\<close>

theorem files_sorted_last_wins:
  assumes "Impl_new heap file ft0 = Opened st"
  shows "sorted_wrt (<) (files st) \<and> distinct (files st)
       \<and> files st = sorted_list_of_set (fst ` set (entries st))
       \<and> (\<exists>data ps. file = Some data \<and> index_assignments heap data (footer st) = Some ps
             \<and> fst ` set ps \<subseteq> set (files st)
             \<and> (\<forall>p \<in> fst ` set ps. map_of (entries st) p = map_of (rev ps) p))"
proof -
  from Opened_assignments [OF assms] obtain data es ps where
    d: "file = Some data" and es: "sorted_wrt (<) (map fst es)" and
    ps: "index_assignments heap data (footer st) = Some ps" and
    st: "entries st = assign_all es ps"
    by blast
  have s: "sorted_wrt (<) (files st)"
    unfolding files_def st using es by (rule sorted_assign_all)
  then have "distinct (files st)"
    by (simp add: strict_sorted_iff)
  moreover from s have "files st = sorted_list_of_set (fst ` set (entries st))"
    using strictly_sorted_is_sorted_list_of_set [of "files st"] by (simp add: files_def)
  moreover have "fst ` set ps \<subseteq> set (files st)"
    unfolding files_def st using keys_assign_all [of es ps] by auto
  moreover have "map_of (entries st) p = map_of (rev ps) p" if "p \<in> fst ` set ps" for p
  proof -
    from that have "p \<in> dom (map_of (rev ps))"
      by (simp add: dom_map_of_conv_image_fst)
    then show ?thesis
      unfolding st map_of_assign_all [OF es] by (auto simp: map_add_dom_app_simps)
  qed
  ultimately show ?thesis using s d ps by blast
qed

theorem files_sorted_last_wins_witness:
  "Impl_new heap_4GiB (Some pak_v9_sample) zero_footer = Opened pak_v9_model
   \<and> index_assignments heap_4GiB pak_v9_sample (footer pak_v9_model)
     = Some [([0x62], plain_entry 1), ([0x2F, 0x61], blocks_entry), ([0x62], plain_entry 3)]
   \<and> files pak_v9_model = [[0x2F, 0x61], [0x62]]
   \<and> sorted_wrt (<) (files pak_v9_model)
   \<and> map_of (entries pak_v9_model) [0x62] = Some (plain_entry 3)"
proof -
  from files_sorted_last_wins [OF Impl_new_pak_v9_sample]
  have s: "sorted_wrt (<) (files pak_v9_model)" by blast
  have f: "files pak_v9_model = [[0x2F, 0x61], [0x62]]"
    by (simp add: pak_v9_model_def files_def)
  have m: "map_of (entries pak_v9_model) [0x62] = Some (plain_entry 3)"
    by (simp add: pak_v9_model_def)
  have i: "index_assignments heap_4GiB pak_v9_sample (footer pak_v9_model)
     = Some [([0x62], plain_entry 1), ([0x2F, 0x61], blocks_entry), ([0x62], plain_entry 3)]"
    using index_assignments_pak_v9_sample by (simp add: pak_v9_model_def)
  from Impl_new_pak_v9_sample i f s m show ?thesis by blast
qed

section \<open>Leading slashes of the stored paths\<close>

text \<open>
  An attempt for \<open>PathHashIndex\<close> or later that is accepted starts with no entries: it is the
  attempt for version 11, the first one, or the attempt for version 10, before which the
  attempt for version 11 failed in its footer.
\<close>

lemma probe_version:
  assumes "probe heap file vs st = Opened st'"
  shows "\<exists>v \<in> set vs. version_major (footer st') = major_num (version_to_major v)"
  using assms
proof (induction vs arbitrary: st)
  case Nil
  then show ?case by simp
next
  case (Cons v vs)
  show ?case
  proof (cases "read_footer file v st")
    case StreamFailed
    with Cons.prems show ?thesis by simp
  next
    case (Threw e st1)
    with Cons.prems Cons.IH [of st1] show ?thesis by simp
  next
    case (Ok st1)
    show ?thesis
    proof (cases "read_index heap file st1")
      case StreamFailed
      with Ok Cons.prems show ?thesis by simp
    next
      case (Threw e st2)
      with Ok Cons.prems Cons.IH [of st2] show ?thesis by simp
    next
      case ok2: (Ok st2)
      with Ok Cons.prems have "st2 = st'" by simp
      with read_footer_Ok [OF Ok] read_index_Ok [OF ok2] show ?thesis by simp
    qed
  qed
qed

lemma probe_older:
  assumes "probe heap file [V9, V8B, V8A, V7, V6, V5, V4, V3, V2, V1] st = Opened st'"
  shows "version_major (footer st') < major_num PathHashIndex"
  using probe_version [OF assms] by auto

lemma path_hash_attempt:
  assumes "probe heap file candidate_versions st = Opened st'"
    and "version_major (footer st') \<ge> major_num PathHashIndex"
  shows "\<exists>st2. entries st2 = entries st \<and> read_index heap file st2 = Ok st'"
proof (cases "read_footer file V11 st")
  case StreamFailed
  with assms(1) show ?thesis by (simp add: candidate_versions_def)
next
  case (Ok st1)
  show ?thesis
  proof (cases "read_index heap file st1")
    case StreamFailed
    with Ok assms(1) show ?thesis by (simp add: candidate_versions_def)
  next
    case ok2: (Ok st2)
    with Ok assms(1) have "st2 = st'" by (simp add: candidate_versions_def)
    with read_footer_Ok [OF Ok] ok2 show ?thesis by auto
  next
    case (Threw e st2)
    with Ok assms(1)
    have p: "probe heap file [V10, V9, V8B, V8A, V7, V6, V5, V4, V3, V2, V1] st2 = Opened st'"
      by (simp add: candidate_versions_def)
    show ?thesis
    proof (cases "read_footer file V10 st2")
      case StreamFailed
      with p show ?thesis by simp
    next
      case ok10: (Ok st3)
      from read_footer_V11_V10 [OF Ok ok10] show ?thesis ..
    next
      case t10: (Threw e' st3)
      with p have "probe heap file [V9, V8B, V8A, V7, V6, V5, V4, V3, V2, V1] st3 = Opened st'"
        by simp
      from probe_older [OF this] assms(2) show ?thesis by simp
    qed
  qed
next
  case (Threw e st1)
  with assms(1)
  have p: "probe heap file [V10, V9, V8B, V8A, V7, V6, V5, V4, V3, V2, V1] st1 = Opened st'"
    by (simp add: candidate_versions_def)
  from read_footer_Threw [OF Threw] have e1: "entries st1 = entries st" by simp
  show ?thesis
  proof (cases "read_footer file V10 st1")
    case StreamFailed
    with p show ?thesis by simp
  next
    case t10: (Threw e' st2)
    with p have "probe heap file [V9, V8B, V8A, V7, V6, V5, V4, V3, V2, V1] st2 = Opened st'"
      by simp
    from probe_older [OF this] assms(2) show ?thesis by simp
  next
    case (Ok st2)
    from read_footer_Ok [OF Ok] e1 have e2: "entries st2 = entries st" by simp
    show ?thesis
    proof (cases "read_index heap file st2")
      case StreamFailed
      with Ok p show ?thesis by simp
    next
      case ok2: (Ok st3)
      with Ok p have "st3 = st'" by simp
      with e2 ok2 show ?thesis by auto
    next
      case t: (Threw e' st3)
      with Ok p have "probe heap file [V9, V8B, V8A, V7, V6, V5, V4, V3, V2, V1] st3 = Opened st'"
        by simp
      from probe_older [OF this] assms(2) show ?thesis by simp
    qed
  qed
qed

text \<open>
  C6, as stated: no path of an opened PAK begins with \<^verbatim>\<open>'/'\<close>, in either branch.  The
  flat index of the sample holds the path \<open>"/a"\<close>, and the opened model lists it as it is.  In
  the other branch one leading \<^verbatim>\<open>'/'\<close> is removed, so the directory \<open>"//"\<close> and the file \<open>"a"\<close>
  give \<open>"/a"\<close>.
\<close>

theorem flat_index_keeps_leading_slash:
  "Impl_new heap_4GiB (Some pak_v9_sample) zero_footer = Opened pak_v9_model
   \<and> files pak_v9_model = [[0x2F, 0x61], [0x62]]
   \<and> hd (hd (files pak_v9_model)) = 0x2F
   \<and> full_directory_path [0x2F, 0x2F] [0x61] = [0x2F, 0x61]"
  using Impl_new_pak_v9_sample
  by (simp add: pak_v9_model_def files_def full_directory_path_def)

text \<open>
  C6, amended.  For every PAK opened with a footer of \<open>PathHashIndex\<close> or later, the stored
  paths are exactly the paths made of the directory names and the file names that are read
  from the full directory index of the file: the names joined, with one leading \<^verbatim>\<open>'/'\<close>
  removed.  Such a path begins with \<^verbatim>\<open>'/'\<close> only if the joined names begin with two.  For every
  PAK opened with an older footer, each path of the flat index of that footer is stored as
  it is read.
\<close>

theorem path_hash_index_paths:
  assumes "Impl_new heap file ft0 = Opened st"
  shows "(version_major (footer st) \<ge> major_num PathHashIndex \<longrightarrow>
            (\<exists>data ns. file = Some data \<and> index_names heap data (footer st) = Some ns
               \<and> set (files st) = (\<lambda>(d, f). full_directory_path d f) ` set ns
               \<and> (\<forall>(d, f) \<in> set ns.
                     full_directory_path d f \<noteq> [] \<and> hd (full_directory_path d f) = 0x2F
                     \<longrightarrow> take 2 (joined_path d f) = [0x2F, 0x2F])))
       \<and> (version_major (footer st) < major_num PathHashIndex \<longrightarrow>
            (\<exists>data ps. file = Some data \<and> index_assignments heap data (footer st) = Some ps
               \<and> fst ` set ps \<subseteq> set (files st)))"
proof (intro conjI impI)
  assume v: "version_major (footer st) \<ge> major_num PathHashIndex"
  from assms obtain data where d: "file = Some data"
    by (cases "file") (auto simp: Impl_new_def)
  with assms have "probe heap data candidate_versions
      \<lparr> footer = ft0, mount_point = [], entries = [] \<rparr> = Opened st"
    by (simp add: Impl_new_def)
  from path_hash_attempt [OF this v] obtain st2 where
    e: "entries st2 = []" and i: "read_index heap data st2 = Ok st"
    by auto
  from read_index_Ok [OF i] have ft: "footer st = footer st2" .
  with read_index_names [OF i] v e obtain ns where
    ns: "index_names heap data (footer st) = Some ns" and
    es: "entries st = assign_all [] (placeholders ns)"
    by auto
  have "map fst (placeholders ns) = map (\<lambda>(d, f). full_directory_path d f) ns"
    by (induction ns) auto
  then have "set (files st) = (\<lambda>(d, f). full_directory_path d f) ` set ns"
    unfolding files_def es using keys_assign_all [of "[]" "placeholders ns"]
    by simp
  moreover have "\<forall>(d, f) \<in> set ns.
       full_directory_path d f \<noteq> [] \<and> hd (full_directory_path d f) = 0x2F
       \<longrightarrow> take 2 (joined_path d f) = [0x2F, 0x2F]"
    using full_directory_path_slash by auto
  ultimately show "\<exists>data ns. file = Some data \<and> index_names heap data (footer st) = Some ns
       \<and> set (files st) = (\<lambda>(d, f). full_directory_path d f) ` set ns
       \<and> (\<forall>(d, f) \<in> set ns.
             full_directory_path d f \<noteq> [] \<and> hd (full_directory_path d f) = 0x2F
             \<longrightarrow> take 2 (joined_path d f) = [0x2F, 0x2F])"
    using d ns by blast
next
  from Opened_assignments [OF assms] obtain data es ps where
    d: "file = Some data" and
    ps: "index_assignments heap data (footer st) = Some ps" and
    st: "entries st = assign_all es ps"
    by blast
  have "fst ` set ps \<subseteq> set (files st)"
    unfolding files_def st using keys_assign_all [of es ps] by auto
  with d ps show "\<exists>data ps. file = Some data
       \<and> index_assignments heap data (footer st) = Some ps \<and> fst ` set ps \<subseteq> set (files st)"
    by blast
qed

theorem path_hash_index_paths_witness:
  "Impl_new heap_4GiB (Some pak_v11_sample) zero_footer = Opened pak_v11_model
   \<and> major_num PathHashIndex \<le> version_major (footer pak_v11_model)
   \<and> index_names heap_4GiB pak_v11_sample (footer pak_v11_model) = Some [([0x2F], [0x61])]
   \<and> set (files pak_v11_model) = {full_directory_path [0x2F] [0x61]}
   \<and> full_directory_path [0x2F] [0x61] = [0x61]
   \<and> Impl_new heap_4GiB (Some pak_v9_sample) zero_footer = Opened pak_v9_model
   \<and> version_major (footer pak_v9_model) < major_num PathHashIndex
   \<and> index_assignments heap_4GiB pak_v9_sample (footer pak_v9_model)
     = Some [([0x62], plain_entry 1), ([0x2F, 0x61], blocks_entry), ([0x62], plain_entry 3)]
   \<and> {[0x62], [0x2F, 0x61]} \<subseteq> set (files pak_v9_model)"
proof -
  have v: "major_num PathHashIndex \<le> version_major (footer pak_v11_model)"
    by (simp add: pak_v11_model_def pak_v11_footer_value_def)
  have n: "index_names heap_4GiB pak_v11_sample (footer pak_v11_model) = Some [([0x2F], [0x61])]"
    using index_names_pak_v11_sample by (simp add: pak_v11_model_def)
  from path_hash_index_paths [OF Impl_new_pak_v11_sample] v n
  have a: "set (files pak_v11_model) = {full_directory_path [0x2F] [0x61]}"
    by simp
  have f: "full_directory_path [0x2F] [0x61] = [0x61]"
    by (simp add: full_directory_path_def)
  have v9: "version_major (footer pak_v9_model) < major_num PathHashIndex"
    by (simp add: pak_v9_model_def pak_v9_footer_value_def)
  have i: "index_assignments heap_4GiB pak_v9_sample (footer pak_v9_model)
     = Some [([0x62], plain_entry 1), ([0x2F, 0x61], blocks_entry), ([0x62], plain_entry 3)]"
    using index_assignments_pak_v9_sample by (simp add: pak_v9_model_def)
  from path_hash_index_paths [OF Impl_new_pak_v9_sample] v9 i
  have b: "{[0x62], [0x2F, 0x61]} \<subseteq> set (files pak_v9_model)"
    by simp
  show ?thesis
    using Impl_new_pak_v11_sample v n a f Impl_new_pak_v9_sample v9 i b
    by (intro conjI) assumption+
qed

end
